theory Spec2Isabelle
  imports Main
begin

section \<open>Python values, errors and strings\<close>

text \<open>
  The two modules of the plugin (\<^verbatim>\<open>AutoSetSyntax.py\<close> and \<^verbatim>\<open>AutoSetNewFileSyntax.py\<close>)
  work on Python strings, on the objects \<^verbatim>\<open>yaml.load\<close> hands back and on compiled regular
  expressions. A Python \<^verbatim>\<open>str\<close> is a \<^typ>\<open>string\<close>; one \<^typ>\<open>char\<close> stands for one
  code point (the code points below 256 are the ones a \<^typ>\<open>char\<close> can hold). A
  raised exception is the \<open>Inl\<close> side of a sum. \<open>pyval\<close> has the objects a YAML
  document loads to; \<open>PInt\<close> stands for the numbers, which the plugin treats alike.
\<close>

datatype pyval =
    PNone
  | PBool bool
  | PInt int
  | PStr string
  | PList "pyval list"
  | PDict "(pyval \<times> pyval) list"

datatype py_error = IndexError | KeyError | TypeError | YAMLError

text \<open>\<^verbatim>\<open>str.isspace\<close> on one character, for the code points a \<^typ>\<open>char\<close> holds.\<close>

definition isspace :: "char \<Rightarrow> bool" where
  "isspace c =
     (let n = (of_char c :: nat)
      in (9 \<le> n \<and> n \<le> 13) \<or> (28 \<le> n \<and> n \<le> 32) \<or> n = 133 \<or> n = 160)"

text \<open>\<^verbatim>\<open>content.strip()\<close>: leading and trailing whitespace removed.\<close>

definition strip :: "string \<Rightarrow> string" where
  "strip s = rev (dropWhile isspace (rev (dropWhile isspace s)))"

definition startswith :: "string \<Rightarrow> string \<Rightarrow> bool" where
  "startswith s sub = (take (length sub) s = sub)"

text \<open>
  \<^verbatim>\<open>s.find(sub)\<close>: the lowest index at which \<open>sub\<close> occurs in \<open>s\<close>, or \<open>-1\<close>.
  \<open>find_from sub s i\<close> searches the suffix \<open>s\<close> that starts at index \<open>i\<close>.
\<close>

fun find_from :: "string \<Rightarrow> string \<Rightarrow> nat \<Rightarrow> int" where
  "find_from sub [] i = (if sub = [] then int i else - 1)"
| "find_from sub (c # cs) i =
     (if startswith (c # cs) sub then int i else find_from sub cs (Suc i))"

definition find_str :: "string \<Rightarrow> string \<Rightarrow> int" where
  "find_str s sub = find_from sub s 0"

section \<open>The first-line-match extractor\<close>

text \<open>
  \<^verbatim>\<open>'first_line_match' in yamlDict\<close> and \<^verbatim>\<open>yamlDict['first_line_match']\<close>, for each kind of
  object the YAML loader can return: a mapping is searched by key; a string is searched
  for the substring and a sequence for the element, and neither can be indexed by a
  string; the other objects are not containers.
\<close>

fun contains_str :: "pyval \<Rightarrow> string \<Rightarrow> py_error + bool" where
  "contains_str (PDict kvs) k = Inr (PStr k \<in> set (map fst kvs))"
| "contains_str (PList xs) k = Inr (PStr k \<in> set xs)"
| "contains_str (PStr s) k = Inr (find_str s k \<noteq> - 1)"
| "contains_str PNone k = Inl TypeError"
| "contains_str (PBool b) k = Inl TypeError"
| "contains_str (PInt i) k = Inl TypeError"

fun getitem_str :: "pyval \<Rightarrow> string \<Rightarrow> py_error + pyval" where
  "getitem_str (PDict kvs) k =
     (case map_of kvs (PStr k) of None \<Rightarrow> Inl KeyError | Some v \<Rightarrow> Inr v)"
| "getitem_str v k = Inl TypeError"

text \<open>
  \<^verbatim>\<open>findFirstLineMatchYaml\<close>. The YAML loader is the library's: it is the parameter
  \<open>yaml_load\<close>, which returns the loaded object or raises. The function returns a
  Python object, \<open>PNone\<close> being Python's \<^verbatim>\<open>None\<close>.
\<close>

definition findFirstLineMatchYaml ::
  "(string \<Rightarrow> py_error + pyval) \<Rightarrow> string \<Rightarrow> py_error + pyval" where
  "findFirstLineMatchYaml yaml_load content =
     (let cutPos = find_str content ''contexts:'';
          content = (if cutPos \<noteq> - 1 then take (nat cutPos) content else content)
      in if find_str content ''first_line_match'' = - 1 then Inr PNone
         else
           (case yaml_load content of
              Inl e \<Rightarrow> Inl e
            | Inr yamlDict \<Rightarrow>
                (case contains_str yamlDict ''first_line_match'' of
                   Inl e \<Rightarrow> Inl e
                 | Inr True \<Rightarrow> getitem_str yamlDict ''first_line_match''
                 | Inr False \<Rightarrow> Inr PNone)))"

text \<open>
  The regular expression of \<^verbatim>\<open>findFirstLineMatchXml\<close>,
  \<^verbatim>\<open>firstLineMatch</key>\s*<string>(.*?)</string>\<close> with \<^verbatim>\<open>re.DOTALL\<close>, written out:
  \<open>flm_match_here\<close> is a match that starts at the head of the text (the key, any
  whitespace, the opening tag, then the shortest text up to a closing tag) and
  \<open>flm_search\<close> is \<^verbatim>\<open>re.search\<close>, the match at the leftmost start; both return group 1.
\<close>

definition flm_match_here :: "string \<Rightarrow> string option" where
  "flm_match_here s =
     (if startswith s ''firstLineMatch</key>'' then
        (let rest = dropWhile isspace (drop (length ''firstLineMatch</key>'') s)
         in if startswith rest ''<string>'' then
              (let body = drop (length ''<string>'') rest;
                   e = find_str body ''</string>''
               in if e = - 1 then None else Some (take (nat e) body))
            else None)
      else None)"

fun flm_search :: "string \<Rightarrow> string option" where
  "flm_search [] = flm_match_here []"
| "flm_search (c # cs) =
     (case flm_match_here (c # cs) of Some g \<Rightarrow> Some g | None \<Rightarrow> flm_search cs)"

definition findFirstLineMatchXml :: "string \<Rightarrow> pyval" where
  "findFirstLineMatchXml content =
     (let cutPoint = find_str content ''firstLineMatch''
      in if cutPoint = - 1 then PNone
         else
           (let content = drop (nat cutPoint) content
            in case flm_search content of Some g \<Rightarrow> PStr g | None \<Rightarrow> PNone))"

text \<open>
  \<^verbatim>\<open>findFirstLineMatch\<close>: \<^verbatim>\<open>content[0]\<close> of the stripped content raises \<^verbatim>\<open>IndexError\<close>
  when nothing is left of it.
\<close>

definition findFirstLineMatch ::
  "(string \<Rightarrow> py_error + pyval) \<Rightarrow> string \<Rightarrow> py_error + pyval" where
  "findFirstLineMatch yaml_load content =
     (let content = strip content
      in case content of
           [] \<Rightarrow> Inl IndexError
         | c # cs \<Rightarrow>
             if c = CHR ''%'' then findFirstLineMatchYaml yaml_load content
             else Inr (findFirstLineMatchXml content))"

section \<open>Libraries and host\<close>

text \<open>
  What the plugin calls and does not define: \<^verbatim>\<open>re.compile\<close> (\<open>None\<close> when it raises)
  and the compiled pattern's \<^verbatim>\<open>search\<close> (whether it returns a match), \<^verbatim>\<open>yaml.load\<close>,
  \<^verbatim>\<open>os.path.splitext\<close>, and the host's \<^verbatim>\<open>sublime.find_resources\<close> and
  \<^verbatim>\<open>sublime.load_resource\<close>. Every function of the plugin takes them as one record;
  \<open>'r\<close> is the type of compiled patterns.
\<close>

record 'r env =
  re_compile :: "string \<Rightarrow> 'r option"
  re_search :: "'r \<Rightarrow> string \<Rightarrow> bool"
  yaml_load :: "string \<Rightarrow> py_error + pyval"
  splitext :: "string \<Rightarrow> string \<times> string"
  find_resources :: "string \<Rightarrow> string list"
  load_resource :: "string \<Rightarrow> string"

text \<open>
  \<^verbatim>\<open>re.compile(x)\<close> for an object \<open>x\<close> that the extractor returned: only a string can
  compile, any other object raises \<^verbatim>\<open>TypeError\<close>.
\<close>

fun compile_value :: "'r env \<Rightarrow> pyval \<Rightarrow> 'r option" where
  "compile_value env (PStr s) = re_compile env s"
| "compile_value env v = None"

text \<open>
  A logged message is the format string and the arguments of its \<^verbatim>\<open>format\<close> call.
\<close>

type_synonym message = "string \<times> pyval list"

datatype log_entry = LogError message | LogWarning message

section \<open>Settings and the plugin's global state\<close>

text \<open>
  The settings object, with the options the plugin reads. \<open>syntax_mapping\<close> is the
  dictionary as the list of its items in iteration order; \<open>event_listeners\<close> is
  \<open>None\<close> when the option is not set.
\<close>

record plugin_settings =
  syntax_mapping :: "(string \<times> string list) list"
  working_scope :: string
  first_line_length_max :: int
  event_listeners :: "(string \<times> bool) list option"

text \<open>
  The module globals and the two attributes of the \<^verbatim>\<open>SyntaxMappings\<close> object; \<open>logger\<close>
  is what has been logged and \<open>error_messages\<close> what \<^verbatim>\<open>sublime.error_message\<close> has
  shown.
\<close>

record 'r plugin_state =
  settings :: plugin_settings
  workingScopeRegex :: "'r option"
  syntaxMappings :: "(string \<times> 'r list) list"
  syntaxMappingsSt :: "(string \<times> 'r list) list"
  logger :: "log_entry list"
  error_messages :: "message list"

definition initial_state :: "plugin_settings \<Rightarrow> 'r plugin_state" where
  "initial_state s =
     \<lparr>settings = s, workingScopeRegex = None, syntaxMappings = [],
      syntaxMappingsSt = [], logger = [], error_messages = []\<rparr>"

section \<open>The syntax mapping table\<close>

text \<open>
  The inner loop of \<^verbatim>\<open>buildSyntaxMappingsFromUser\<close>: the patterns of one syntax file
  that compile, in order, and an error logged for each one that does not.
\<close>

fun compileFirstLineMatches ::
  "'r env \<Rightarrow> string \<Rightarrow> string list \<Rightarrow> 'r list \<times> log_entry list" where
  "compileFirstLineMatches env syntaxFile [] = ([], [])"
| "compileFirstLineMatches env syntaxFile (firstLineMatch # rest) =
     (case compileFirstLineMatches env syntaxFile rest of
        (regexes, logs) \<Rightarrow>
          (case re_compile env firstLineMatch of
             Some r \<Rightarrow> (r # regexes, logs)
           | None \<Rightarrow>
               (regexes,
                LogError (''regex compilation failed in user settings {0}: {1}'',
                          [PStr syntaxFile, PStr firstLineMatch]) # logs)))"

fun buildSyntaxMappingsFromUser ::
  "'r env \<Rightarrow> (string \<times> string list) list \<Rightarrow> (string \<times> 'r list) list \<times> log_entry list" where
  "buildSyntaxMappingsFromUser env [] = ([], [])"
| "buildSyntaxMappingsFromUser env ((syntaxFile, firstLineMatches) # rest) =
     (case compileFirstLineMatches env syntaxFile firstLineMatches of
        (firstLineMatchRegexes, logs) \<Rightarrow>
          (case buildSyntaxMappingsFromUser env rest of
             (mappings, logs') \<Rightarrow>
               (if length firstLineMatchRegexes > 0
                then (syntaxFile, firstLineMatchRegexes) # mappings
                else mappings,
                logs @ logs')))"

text \<open>
  \<^verbatim>\<open>findSyntaxResources\<close>. \<open>syntaxGriddle\<close> is the dictionary as the list of its items
  in insertion order; a resource name that is already a key keeps its first extension.
\<close>

definition syntaxFileExts :: "string list" where
  "syntaxFileExts = [''.sublime-syntax'', ''.tmLanguage'']"

fun griddle_add ::
  "'r env \<Rightarrow> (string \<times> string) list \<Rightarrow> string list \<Rightarrow> (string \<times> string) list" where
  "griddle_add env syntaxGriddle [] = syntaxGriddle"
| "griddle_add env syntaxGriddle (resource # resources) =
     (case splitext env resource of
        (resourceName, resourceExt) \<Rightarrow>
          griddle_add env
            (if resourceName \<notin> set (map fst syntaxGriddle)
             then syntaxGriddle @ [(resourceName, resourceExt)]
             else syntaxGriddle)
            resources)"

fun griddle_exts ::
  "'r env \<Rightarrow> (string \<times> string) list \<Rightarrow> string list \<Rightarrow> (string \<times> string) list" where
  "griddle_exts env syntaxGriddle [] = syntaxGriddle"
| "griddle_exts env syntaxGriddle (syntaxFileExt # exts) =
     griddle_exts env
       (griddle_add env syntaxGriddle (find_resources env (''*'' @ syntaxFileExt))) exts"

definition findSyntaxResources :: "'r env \<Rightarrow> bool \<Rightarrow> string list" where
  "findSyntaxResources env dropDuplicated =
     (if \<not> dropDuplicated
      then concat (map (\<lambda>syntaxFileExt. find_resources env (''*'' @ syntaxFileExt)) syntaxFileExts)
      else map (\<lambda>(n, e). n @ e) (griddle_exts env [] syntaxFileExts))"

text \<open>
  The loop of \<^verbatim>\<open>buildSyntaxMappingsFromSt\<close> over the resources. The extractor is called
  outside the \<^verbatim>\<open>try\<close>, so what it raises ends the loop; only the compilation is inside
  it. The result is what was logged, and the exception or the list built.
\<close>

fun build_from_resources ::
  "'r env \<Rightarrow> string list \<Rightarrow> log_entry list \<times> (py_error + (string \<times> 'r list) list)" where
  "build_from_resources env [] = ([], Inr [])"
| "build_from_resources env (syntaxFile # rest) =
     (case findFirstLineMatch (yaml_load env) (load_resource env syntaxFile) of
        Inl e \<Rightarrow> ([], Inl e)
      | Inr firstLineMatch \<Rightarrow>
          (if firstLineMatch \<noteq> PNone then
             (case compile_value env firstLineMatch of
                Some r \<Rightarrow>
                  (case build_from_resources env rest of
                     (logs, Inl e) \<Rightarrow> (logs, Inl e)
                   | (logs, Inr mappings) \<Rightarrow>
                       (logs, Inr ((syntaxFile, [r]) # mappings)))
              | None \<Rightarrow>
                  (case build_from_resources env rest of
                     (logs, res) \<Rightarrow>
                       (LogError (''regex compilation failed in {0}: {1}'',
                                  [PStr syntaxFile, firstLineMatch]) # logs, res)))
           else build_from_resources env rest))"

definition buildSyntaxMappingsFromSt ::
  "'r env \<Rightarrow> log_entry list \<times> (py_error + (string \<times> 'r list) list)" where
  "buildSyntaxMappingsFromSt env = build_from_resources env (findSyntaxResources env True)"

text \<open>The methods of \<^verbatim>\<open>SyntaxMappings\<close> that read and write the object.\<close>

definition mappings_value :: "'r plugin_state \<Rightarrow> (string \<times> 'r list) list" where
  "mappings_value st = syntaxMappings st"

definition rebuildSyntaxMappings :: "'r env \<Rightarrow> 'r plugin_state \<Rightarrow> 'r plugin_state" where
  "rebuildSyntaxMappings env st =
     (case buildSyntaxMappingsFromUser env (syntax_mapping (settings st)) of
        (user, logs) \<Rightarrow>
          st\<lparr>syntaxMappings := user @ syntaxMappingsSt st, logger := logger st @ logs\<rparr>)"

text \<open>
  \<^verbatim>\<open>SyntaxMappings.__init__\<close>: an exception of the build leaves the constructor, with
  the state as it is then, before anything is assigned.
\<close>

definition SyntaxMappings_init ::
  "'r env \<Rightarrow> 'r plugin_state \<Rightarrow> (py_error \<times> 'r plugin_state) + 'r plugin_state" where
  "SyntaxMappings_init env st =
     (case buildSyntaxMappingsFromSt env of
        (logs, Inl e) \<Rightarrow> Inl (e, st\<lparr>logger := logger st @ logs\<rparr>)
      | (logs, Inr fromSt) \<Rightarrow>
          Inr (rebuildSyntaxMappings env
                 (st\<lparr>syntaxMappingsSt := fromSt, logger := logger st @ logs\<rparr>)))"

section \<open>The view\<close>

text \<open>
  The host's view, with what the plugin reads and writes of it: the text of the buffer,
  \<^verbatim>\<open>view.scope_name(0)\<close>, the selection \<^verbatim>\<open>view.sel()\<close> as its regions \<open>(a, b)\<close>, and
  the syntax file that \<^verbatim>\<open>view.set_syntax_file\<close> sets. A region is its two points.
\<close>

record view =
  buffer_text :: string
  scope_name0 :: string
  sel :: "(int \<times> int) list"
  syntax_file :: string

text \<open>
  The host's \<^verbatim>\<open>view.line(0).end()\<close> (the first line runs from point 0 to the first
  newline, which is not part of it), \<^verbatim>\<open>view.substr(region)\<close> and the row of
  \<^verbatim>\<open>view.rowcol(point)\<close>.
\<close>

definition first_line :: "view \<Rightarrow> string" where
  "first_line v = takeWhile (\<lambda>c. c \<noteq> CHR 0x0A) (buffer_text v)"

definition line0_end :: "view \<Rightarrow> int" where
  "line0_end v = int (length (first_line v))"

definition substr :: "view \<Rightarrow> int \<times> int \<Rightarrow> string" where
  "substr v region =
     (let lo = nat (min (fst region) (snd region)); hi = nat (max (fst region) (snd region))
      in take (hi - lo) (drop lo (buffer_text v)))"

definition row_of :: "view \<Rightarrow> int \<Rightarrow> nat" where
  "row_of v point = length (filter (\<lambda>c. c = CHR 0x0A) (take (nat point) (buffer_text v)))"

section \<open>The syntax applier\<close>

text \<open>\<^verbatim>\<open>getPartialFirstLine\<close>, the same in both modules.\<close>

definition getPartialFirstLine :: "'r plugin_state \<Rightarrow> view \<Rightarrow> string" where
  "getPartialFirstLine st v =
     (let region = (0, line0_end v);
          firstLineLengthMax = first_line_length_max (settings st);
          region = (if firstLineLengthMax \<ge> 0
                    then (0, min (snd region) firstLineLengthMax)
                    else region)
      in substr v region)"

text \<open>
  The two nested loops of \<^verbatim>\<open>autoSetSyntaxCommand.run\<close> and of
  \<^verbatim>\<open>AutoSetNewFileSyntax.matchAndSetSyntax\<close>. The inner loop returns whether a pattern
  matched, the outer one the syntax file to set (if any); each also returns the
  patterns it has called \<^verbatim>\<open>search\<close> on, in order.
\<close>

fun scan_regexes :: "'r env \<Rightarrow> string \<Rightarrow> 'r list \<Rightarrow> bool \<times> 'r list" where
  "scan_regexes env firstLine [] = (False, [])"
| "scan_regexes env firstLine (firstLineMatchRegex # rest) =
     (if re_search env firstLineMatchRegex firstLine then (True, [firstLineMatchRegex])
      else (case scan_regexes env firstLine rest of
              (found, searched) \<Rightarrow> (found, firstLineMatchRegex # searched)))"

fun scan_mappings ::
  "'r env \<Rightarrow> string \<Rightarrow> (string \<times> 'r list) list \<Rightarrow> string option \<times> (string \<times> 'r) list" where
  "scan_mappings env firstLine [] = (None, [])"
| "scan_mappings env firstLine ((syntaxFile, firstLineMatchRegexes) # rest) =
     (case scan_regexes env firstLine firstLineMatchRegexes of
        (True, searched) \<Rightarrow> (Some syntaxFile, map (Pair syntaxFile) searched)
      | (False, searched) \<Rightarrow>
          (case scan_mappings env firstLine rest of
             (res, searched') \<Rightarrow> (res, map (Pair syntaxFile) searched @ searched')))"

definition run :: "'r env \<Rightarrow> 'r plugin_state \<Rightarrow> view \<Rightarrow> view" where
  "run env st v =
     (let firstLine = getPartialFirstLine st v
      in case fst (scan_mappings env firstLine (mappings_value st)) of
           Some syntaxFile \<Rightarrow> v\<lparr>syntax_file := syntaxFile\<rparr>
         | None \<Rightarrow> v)"

definition run_searched :: "'r env \<Rightarrow> 'r plugin_state \<Rightarrow> view \<Rightarrow> (string \<times> 'r) list" where
  "run_searched env st v =
     snd (scan_mappings env (getPartialFirstLine st v) (mappings_value st))"

definition matchAndSetSyntax :: "'r env \<Rightarrow> 'r plugin_state \<Rightarrow> view \<Rightarrow> view" where
  "matchAndSetSyntax env st v =
     (let firstLine = getPartialFirstLine st v
      in case fst (scan_mappings env firstLine (mappings_value st)) of
           Some syntaxFile \<Rightarrow> v\<lparr>syntax_file := syntaxFile\<rparr>
         | None \<Rightarrow> v)"

section \<open>The working scope and the event listeners\<close>

definition compileWorkingScope :: "'r env \<Rightarrow> 'r plugin_state \<Rightarrow> 'r plugin_state" where
  \<open>compileWorkingScope env st =
     (let workingScope = working_scope (settings st)
      in case re_compile env workingScope of
           Some r \<Rightarrow> st\<lparr>workingScopeRegex := Some r\<rparr>
         | None \<Rightarrow>
             (let errorMessage =
                    (''regex compilation failed in user settings "{0}": {1}'',
                     [PStr ''working_scope'', PStr workingScope])
              in st\<lparr>logger := logger st @ [LogError errorMessage],
                    error_messages := error_messages st @ [errorMessage],
                    workingScopeRegex := None\<rparr>))\<close>

text \<open>
  \<^verbatim>\<open>isEventListenerEnabled\<close>: the flag of the event, or \<open>True\<close> with a warning when
  \<^verbatim>\<open>event_listeners\<close> or the event's key is not set.
\<close>

definition isEventListenerEnabled :: "'r plugin_state \<Rightarrow> string \<Rightarrow> bool \<times> 'r plugin_state" where
  \<open>isEventListenerEnabled st event =
     (case (case event_listeners (settings st) of None \<Rightarrow> None | Some m \<Rightarrow> map_of m event) of
        Some flag \<Rightarrow> (flag, st)
      | None \<Rightarrow>
          (True,
           st\<lparr>logger := logger st @
                 [LogWarning (''"{0}" is not set in user settings (assumed true)'',
                              [PStr (''event_listeners -> '' @ event)])]\<rparr>))\<close>

definition isOnlyOneCursor :: "view \<Rightarrow> bool" where
  "isOnlyOneCursor v = (length (sel v) = 1)"

definition isFirstCursorNearBeginning :: "view \<Rightarrow> py_error + bool" where
  "isFirstCursorNearBeginning v =
     (case sel v of [] \<Rightarrow> Inl IndexError | region # rest \<Rightarrow> Inr (row_of v (fst region) < 2))"

definition isOnWorkingScope :: "'r env \<Rightarrow> 'r plugin_state \<Rightarrow> view \<Rightarrow> bool" where
  "isOnWorkingScope env st v =
     (case workingScopeRegex st of
        None \<Rightarrow> False
      | Some r \<Rightarrow> if \<not> re_search env r (scope_name0 v) then False else True)"

text \<open>
  The event listeners of \<^verbatim>\<open>AutoSetSyntax.py\<close>. Each returns the state (a warning may
  have been logged) and the commands it has run on the view with \<^verbatim>\<open>view.run_command\<close>;
  the conditions are evaluated from left to right, and the evaluation stops at the
  first one that is false.
\<close>

definition guarded_run ::
  "'r env \<Rightarrow> 'r plugin_state \<Rightarrow> view \<Rightarrow> string \<Rightarrow> 'r plugin_state \<times> string list" where
  "guarded_run env st v event =
     (case isEventListenerEnabled st event of
        (enabled, st') \<Rightarrow>
          if enabled \<and> isOnWorkingScope env st' v then (st', [''auto_set_syntax''])
          else (st', []))"

definition on_activated_async ::
  "'r env \<Rightarrow> 'r plugin_state \<Rightarrow> view \<Rightarrow> 'r plugin_state \<times> string list" where
  "on_activated_async env st v = guarded_run env st v ''on_activated_async''"

definition on_clone_async ::
  "'r env \<Rightarrow> 'r plugin_state \<Rightarrow> view \<Rightarrow> 'r plugin_state \<times> string list" where
  "on_clone_async env st v = guarded_run env st v ''on_clone_async''"

definition on_load_async ::
  "'r env \<Rightarrow> 'r plugin_state \<Rightarrow> view \<Rightarrow> 'r plugin_state \<times> string list" where
  "on_load_async env st v = guarded_run env st v ''on_load_async''"

definition on_new_async ::
  "'r env \<Rightarrow> 'r plugin_state \<Rightarrow> view \<Rightarrow> 'r plugin_state \<times> string list" where
  "on_new_async env st v = guarded_run env st v ''on_new_async''"

definition on_pre_save_async ::
  "'r env \<Rightarrow> 'r plugin_state \<Rightarrow> view \<Rightarrow> 'r plugin_state \<times> string list" where
  "on_pre_save_async env st v = guarded_run env st v ''on_pre_save_async''"

definition on_modified_async ::
  "'r env \<Rightarrow> 'r plugin_state \<Rightarrow> view \<Rightarrow> 'r plugin_state \<times> (py_error + string list)" where
  "on_modified_async env st v =
     (case isEventListenerEnabled st ''on_modified_async'' of
        (enabled, st') \<Rightarrow>
          if \<not> enabled then (st', Inr [])
          else if \<not> isOnlyOneCursor v then (st', Inr [])
          else
            (case isFirstCursorNearBeginning v of
               Inl e \<Rightarrow> (st', Inl e)
             | Inr near \<Rightarrow>
                 if near \<and> isOnWorkingScope env st' v then (st', Inr [''auto_set_syntax''])
                 else (st', Inr [])))"

definition on_post_text_command ::
  "'r env \<Rightarrow> 'r plugin_state \<Rightarrow> view \<Rightarrow> string \<Rightarrow> 'r plugin_state \<times> string list" where
  "on_post_text_command env st v command_name =
     (if \<not> isOnWorkingScope env st v then (st, [])
      else
        (case isEventListenerEnabled st ''on_post_paste'' of
           (enabled, st') \<Rightarrow>
             if enabled \<and> (command_name = ''patse'' \<or> command_name = ''paste_and_indent'')
             then (st', [''auto_set_syntax''])
             else (st', [])))"

text \<open>
  \<^verbatim>\<open>plugin_loaded\<close> of \<^verbatim>\<open>AutoSetSyntax.py\<close>: the mapping table is built, then the working
  scope is compiled. That module takes the class \<^verbatim>\<open>SyntaxMappings\<close> from a module of the
  same name; the class is modelled as \<^verbatim>\<open>AutoSetNewFileSyntax.py\<close> defines it.
\<close>

definition plugin_loaded ::
  "'r env \<Rightarrow> plugin_settings \<Rightarrow> (py_error \<times> 'r plugin_state) + 'r plugin_state" where
  "plugin_loaded env s =
     (case SyntaxMappings_init env (initial_state s) of
        Inl x \<Rightarrow> Inl x
      | Inr st \<Rightarrow> Inr (compileWorkingScope env st))"

text \<open>
  The states the plugin can be in once it is loaded: the host changes the settings and
  calls the two registered callbacks, and a listener may log a warning.
\<close>

inductive reachable :: "'r env \<Rightarrow> 'r plugin_state \<Rightarrow> bool" for env :: "'r env" where
  loaded: "plugin_loaded env s = Inr st \<Longrightarrow> reachable env st"
| settings_changed: "reachable env st \<Longrightarrow> reachable env (st\<lparr>settings := s\<rparr>)"
| rebuilt: "reachable env st \<Longrightarrow> reachable env (rebuildSyntaxMappings env st)"
| recompiled: "reachable env st \<Longrightarrow> reachable env (compileWorkingScope env st)"
| listener_checked: "reachable env st \<Longrightarrow> reachable env (snd (isEventListenerEnabled st event))"

section \<open>The content before the marker\<close>

text \<open>
  What the specification calls the content truncated at the first occurrence of the
  section marker: the text before that occurrence, or the whole content when the marker
  does not occur.
\<close>

definition before_contexts :: "string \<Rightarrow> string" where
  "before_contexts s =
     (if find_str s ''contexts:'' = - 1 then s else take (nat (find_str s ''contexts:'')) s)"

section \<open>The entry of one resource\<close>

text \<open>
  What one pass of the loop of \<^verbatim>\<open>buildSyntaxMappingsFromSt\<close> appends for a resource when
  the extractor returns for it: nothing when it returns \<^verbatim>\<open>None\<close> or a pattern that does
  not compile, and else the resource with the one compiled pattern.
\<close>

definition resource_entry :: "'r env \<Rightarrow> string \<Rightarrow> (string \<times> 'r list) option" where
  "resource_entry env f =
     (case findFirstLineMatch (yaml_load env) (load_resource env f) of
        Inl e \<Rightarrow> None
      | Inr v \<Rightarrow> if v = PNone then None else map_option (\<lambda>r. (f, [r])) (compile_value env v))"

text \<open>
  What the same pass logs when the extractor returns: an error when the pattern is
  not \<^verbatim>\<open>None\<close> and does not compile, and else nothing.
\<close>

definition resource_log :: "'r env \<Rightarrow> string \<Rightarrow> log_entry option" where
  "resource_log env f =
     (case findFirstLineMatch (yaml_load env) (load_resource env f) of
        Inl e \<Rightarrow> None
      | Inr v \<Rightarrow>
          if v \<noteq> PNone \<and> compile_value env v = None
          then Some (LogError (''regex compilation failed in {0}: {1}'', [PStr f, v]))
          else None)"

section \<open>The scan order of a table\<close>

text \<open>
  What the specification calls scanning the entries in table order and each entry's
  patterns in order: the pairs of a syntax file and one of its patterns, as one list.
\<close>

definition scan_order :: "(string \<times> 'r list) list \<Rightarrow> (string \<times> 'r) list" where
  "scan_order table =
     concat (map (\<lambda>(syntaxFile, regexes). map (Pair syntaxFile) regexes) table)"

section \<open>An installation to evaluate on\<close>

text \<open>
  Concrete libraries and a concrete host, for evaluating the plugin on examples. The
  patterns are literal: a pattern with an opening parenthesis does not compile, and
  the others match where they occur in the text, as \<^verbatim>\<open>re\<close> does for the patterns of
  the examples. \<open>posix_splitext\<close> is \<^verbatim>\<open>posixpath.splitext\<close>. The YAML loader
  knows two documents, a mapping and one that holds nothing but a comment (it loads to
  \<^verbatim>\<open>None\<close>), and raises on every other text.
\<close>

definition literal_compile :: "string \<Rightarrow> string option" where
  "literal_compile p = (if CHR ''('' \<in> set p then None else Some p)"

definition literal_search :: "string \<Rightarrow> string \<Rightarrow> bool" where
  "literal_search r s = (find_str s r \<noteq> - 1)"

definition posix_splitext :: "string \<Rightarrow> string \<times> string" where
  "posix_splitext p =
     (let r = rev p;
          ext = takeWhile (\<lambda>c. c \<noteq> CHR ''.'') r;
          base = takeWhile (\<lambda>c. c \<noteq> CHR ''/'') r
      in if length ext < length base \<and> (\<exists>c \<in> set (drop (Suc (length ext)) base). c \<noteq> CHR ''.'')
         then (take (length p - Suc (length ext)) p, drop (length p - Suc (length ext)) p)
         else (p, []))"

definition ruby_syntax :: string where
  "ruby_syntax =
     ''%YAML 1.2\<newline>---\<newline>name: Ruby\<newline>first_line_match: ruby\<newline>contexts:\<newline>  main: []\<newline>''"

definition php_tmLanguage :: string where
  "php_tmLanguage =
     ''<plist><dict><key>firstLineMatch</key>\<newline>  <string>php</string></dict></plist>''"

definition lisp_tmLanguage :: string where
  "lisp_tmLanguage = ''<key>firstLineMatch</key><string>(defun</string>''"

definition broken_syntax :: string where
  "broken_syntax = ''%YAML 1.2\<newline>---\<newline>first_line_match: [\<newline>contexts:\<newline>''"

definition commented_syntax :: string where
  "commented_syntax =
     ''%YAML 1.2\<newline>---\<newline># first_line_match: ruby\<newline>contexts:\<newline>  main: []\<newline>''"

definition example_yaml_load :: "string \<Rightarrow> py_error + pyval" where
  "example_yaml_load s =
     (if s = ''%YAML 1.2\<newline>---\<newline>name: Ruby\<newline>first_line_match: ruby\<newline>''
      then Inr (PDict [(PStr ''name'', PStr ''Ruby''), (PStr ''first_line_match'', PStr ''ruby'')])
      else if s = ''%YAML 1.2\<newline>---\<newline># first_line_match: ruby\<newline>''
      then Inr PNone
      else Inl YAMLError)"

definition example_env :: "string env" where
  "example_env =
     \<lparr>re_compile = literal_compile,
      re_search = literal_search,
      yaml_load = example_yaml_load,
      splitext = posix_splitext,
      find_resources =
        (\<lambda>pat. if pat = ''*.sublime-syntax'' then [''Packages/Ruby/Ruby.sublime-syntax'']
              else if pat = ''*.tmLanguage''
              then [''Packages/Ruby/Ruby.tmLanguage'', ''Packages/Lisp/Lisp.tmLanguage'',
                    ''Packages/PHP/PHP.tmLanguage'']
              else []),
      load_resource =
        (\<lambda>f. if f = ''Packages/Ruby/Ruby.sublime-syntax'' then ruby_syntax
            else if f = ''Packages/PHP/PHP.tmLanguage'' then php_tmLanguage
            else if f = ''Packages/Lisp/Lisp.tmLanguage'' then lisp_tmLanguage
            else [])\<rparr>"

text \<open>The same installation with one more package, whose syntax file is not valid YAML.\<close>

definition broken_env :: "string env" where
  "broken_env =
     example_env
       \<lparr>find_resources :=
          (\<lambda>pat. if pat = ''*.sublime-syntax''
                then [''Packages/Broken/Broken.sublime-syntax'', ''Packages/Ruby/Ruby.sublime-syntax'']
                else if pat = ''*.tmLanguage'' then [''Packages/PHP/PHP.tmLanguage'']
                else []),
        load_resource :=
          (\<lambda>f. if f = ''Packages/Broken/Broken.sublime-syntax'' then broken_syntax
              else load_resource example_env f)\<rparr>"

definition example_settings :: plugin_settings where
  "example_settings =
     \<lparr>syntax_mapping =
        [(''Packages/Python/Python.sublime-syntax'', [''python'', ''(py'', ''#!py'']),
         (''Packages/Lisp/Lisp.sublime-syntax'', [''(defun'']),
         (''Packages/ShellScript/Bash.sublime-syntax'', [''#!/bin/'']),
         (''Packages/Rails/Ruby on Rails.sublime-syntax'', [''ruby''])],
      working_scope = ''text.plain'',
      first_line_length_max = 80,
      event_listeners = Some [(''on_post_paste'', True), (''on_load_async'', False)]\<rparr>"

definition example_view :: view where
  "example_view =
     \<lparr>buffer_text = ''#!/usr/bin/ruby -w\<newline>puts 1\<newline>'',
      scope_name0 = ''text.plain '',
      sel = [(3, 3)],
      syntax_file = ''Packages/Text/Plain text.tmLanguage''\<rparr>"

text \<open>The state of the plugin once it is loaded in this installation.\<close>

definition example_state :: "string plugin_state" where
  "example_state =
     \<lparr>settings = example_settings,
      workingScopeRegex = Some ''text.plain'',
      syntaxMappings =
        [(''Packages/Python/Python.sublime-syntax'', [''python'', ''#!py'']),
         (''Packages/ShellScript/Bash.sublime-syntax'', [''#!/bin/'']),
         (''Packages/Rails/Ruby on Rails.sublime-syntax'', [''ruby'']),
         (''Packages/Ruby/Ruby.sublime-syntax'', [''ruby'']),
         (''Packages/PHP/PHP.tmLanguage'', [''php''])],
      syntaxMappingsSt =
        [(''Packages/Ruby/Ruby.sublime-syntax'', [''ruby'']),
         (''Packages/PHP/PHP.tmLanguage'', [''php''])],
      logger =
        [LogError (''regex compilation failed in {0}: {1}'',
                   [PStr ''Packages/Lisp/Lisp.tmLanguage'', PStr ''(defun'']),
         LogError (''regex compilation failed in user settings {0}: {1}'',
                   [PStr ''Packages/Python/Python.sublime-syntax'', PStr ''(py'']),
         LogError (''regex compilation failed in user settings {0}: {1}'',
                   [PStr ''Packages/Lisp/Lisp.sublime-syntax'', PStr ''(defun''])],
      error_messages = []\<rparr>"

section \<open>The extractor on blank content\<close>

lemma strip_blank:
  assumes "\<forall>c \<in> set s. isspace c"
  shows "strip s = []"
proof -
  from assms have empty: "dropWhile isspace s = []" by simp
  show ?thesis by (simp add: strip_def empty)
qed

text \<open>
  Claim C9. The extractor needs content that is not blank: when the content is empty or
  all of its characters are whitespace, nothing is left after \<^verbatim>\<open>strip\<close>, and the
  dispatch on \<^verbatim>\<open>content[0]\<close> raises \<^verbatim>\<open>IndexError\<close> (an out-of-range access) instead of
  returning \<^verbatim>\<open>None\<close>, whatever the YAML loader is.
\<close>

theorem findFirstLineMatch_blank_raises:
  "\<forall>c \<in> set content. isspace c \<Longrightarrow> findFirstLineMatch yl content = Inl IndexError"
  by (simp add: findFirstLineMatch_def strip_blank)

theorem findFirstLineMatch_blank_raises_witness:
  "findFirstLineMatch (\<lambda>s. Inr PNone) [CHR 0x20, CHR 0x09, CHR 0x0A] = Inl IndexError
   \<and> findFirstLineMatch (\<lambda>s. Inr PNone) [] = Inl IndexError"
proof -
  have "\<forall>c \<in> set [CHR 0x20, CHR 0x09, CHR 0x0A]. isspace c"
    by (simp add: isspace_def)
  moreover have "\<forall>c \<in> set ([] :: string). isspace c"
    by simp
  ultimately show ?thesis
    using findFirstLineMatch_blank_raises by blast
qed

section \<open>The example installation, evaluated\<close>

lemma example_loaded: "plugin_loaded example_env example_settings = Inr example_state"
  by code_simp

lemma example_first_line: "getPartialFirstLine example_state example_view = ''#!/usr/bin/ruby -w''"
  by code_simp

lemma example_scan_order:
  "scan_order (mappings_value example_state) =
     [(''Packages/Python/Python.sublime-syntax'', ''python''),
      (''Packages/Python/Python.sublime-syntax'', ''#!py''),
      (''Packages/ShellScript/Bash.sublime-syntax'', ''#!/bin/''),
      (''Packages/Rails/Ruby on Rails.sublime-syntax'', ''ruby''),
      (''Packages/Ruby/Ruby.sublime-syntax'', ''ruby''),
      (''Packages/PHP/PHP.tmLanguage'', ''php'')]"
  by code_simp

section \<open>The scan of the mapping table\<close>

lemma scan_order_Nil: "scan_order [] = []"
  by (simp add: scan_order_def)

lemma scan_order_Cons: "scan_order ((f, rs) # t) = map (Pair f) rs @ scan_order t"
  by (simp add: scan_order_def)

lemma scan_regexes_none:
  "\<forall>r \<in> set rs. \<not> re_search env r line \<Longrightarrow> scan_regexes env line rs = (False, rs)"
  by (induction rs) auto

lemma scan_regexes_first:
  "k < length rs \<Longrightarrow> re_search env (rs ! k) line \<Longrightarrow> \<forall>j<k. \<not> re_search env (rs ! j) line \<Longrightarrow>
   scan_regexes env line rs = (True, take (Suc k) rs)"
proof (induction rs arbitrary: k)
  case Nil
  then show ?case by simp
next
  case (Cons r rs)
  show ?case
  proof (cases k)
    case 0
    with Cons.prems show ?thesis by simp
  next
    case (Suc k')
    with Cons.prems have "\<not> re_search env r line" by auto
    moreover from Suc Cons.prems have "k' < length rs" "re_search env (rs ! k') line"
      "\<forall>j<k'. \<not> re_search env (rs ! j) line" by auto
    ultimately show ?thesis using Cons.IH[of k'] Suc by simp
  qed
qed

lemma scan_mappings_none:
  "\<forall>p \<in> set (scan_order t). \<not> re_search env (snd p) line \<Longrightarrow>
   scan_mappings env line t = (None, scan_order t)"
proof (induction t)
  case Nil
  then show ?case by (simp add: scan_order_Nil)
next
  case (Cons e t)
  obtain f rs where e: "e = (f, rs)" by (cases e)
  from Cons.prems have all: "\<forall>p \<in> set (map (Pair f) rs @ scan_order t). \<not> re_search env (snd p) line"
    by (simp only: e scan_order_Cons)
  have rs: "\<forall>r \<in> set rs. \<not> re_search env r line"
  proof
    fix r assume "r \<in> set rs"
    then have "(f, r) \<in> set (map (Pair f) rs @ scan_order t)" by simp
    with all show "\<not> re_search env r line" by fastforce
  qed
  from all have rest: "\<forall>p \<in> set (scan_order t). \<not> re_search env (snd p) line"
    by simp
  show ?case
    by (simp add: e scan_order_Cons scan_regexes_none[OF rs] Cons.IH[OF rest])
qed

lemma scan_mappings_first:
  "k < length (scan_order t) \<Longrightarrow> re_search env (snd (scan_order t ! k)) line \<Longrightarrow>
   \<forall>j<k. \<not> re_search env (snd (scan_order t ! j)) line \<Longrightarrow>
   scan_mappings env line t = (Some (fst (scan_order t ! k)), take (Suc k) (scan_order t))"
proof (induction t arbitrary: k)
  case Nil
  then show ?case by (simp add: scan_order_Nil)
next
  case (Cons e t)
  obtain f rs where e: "e = (f, rs)" by (cases e)
  let ?ps = "scan_order t"
  have ord: "scan_order (e # t) = map (Pair f) rs @ ?ps" by (simp add: e scan_order_Cons)
  show ?case
  proof (cases "k < length rs")
    case True
    then have at_k: "scan_order (e # t) ! k = (f, rs ! k)" by (simp add: ord nth_append)
    have before: "\<forall>j<k. \<not> re_search env (rs ! j) line"
    proof (intro allI impI)
      fix j assume "j < k"
      with True Cons.prems(3) have "\<not> re_search env (snd (scan_order (e # t) ! j)) line" by blast
      with \<open>j < k\<close> True show "\<not> re_search env (rs ! j) line" by (simp add: ord nth_append)
    qed
    from Cons.prems(2) at_k have "re_search env (rs ! k) line" by simp
    from scan_regexes_first[OF True this before] True
    show ?thesis unfolding at_k unfolding e by (simp add: scan_order_Cons take_map)
  next
    case False
    define k' where "k' = k - length rs"
    from False have k: "k = length rs + k'" by (simp add: k'_def)
    have rs: "\<forall>r \<in> set rs. \<not> re_search env r line"
    proof
      fix r assume "r \<in> set rs"
      then obtain j where j: "j < length rs" "rs ! j = r" by (auto simp: in_set_conv_nth)
      with False have "j < k" by simp
      with Cons.prems(3) have "\<not> re_search env (snd (scan_order (e # t) ! j)) line" by blast
      with j show "\<not> re_search env r line" by (simp add: ord nth_append)
    qed
    from Cons.prems(1) have 1: "k' < length ?ps" by (simp add: ord k)
    from Cons.prems(2) have 2: "re_search env (snd (?ps ! k')) line" by (simp add: ord k nth_append)
    have 3: "\<forall>j<k'. \<not> re_search env (snd (?ps ! j)) line"
    proof (intro allI impI)
      fix j assume "j < k'"
      then have "length rs + j < k" by (simp add: k)
      with Cons.prems(3) have "\<not> re_search env (snd (scan_order (e # t) ! (length rs + j))) line" by blast
      then show "\<not> re_search env (snd (?ps ! j)) line" by (simp add: ord nth_append)
    qed
    from Cons.IH[OF 1 2 3] show ?thesis
      unfolding e by (simp add: scan_order_Cons k scan_regexes_none[OF rs] nth_append)
  qed
qed

text \<open>
  Claim C1. For every mapping table and every first line, the syntax applier goes
  through the entries in table order and through each entry's patterns in order. If no
  pattern of any entry matches the (possibly truncated) first line, the view is left as
  it is, and every pattern has been searched. If the pattern at position \<open>k\<close> of the scan
  order is the first one that matches, the view's syntax is set to its entry's syntax
  file, and the patterns searched are exactly those up to position \<open>k\<close>: no later
  pattern or entry is examined. \<^verbatim>\<open>matchAndSetSyntax\<close> of the other module does the same.
\<close>

theorem run_first_match_wins:
  fixes env :: "'r env" and st :: "'r plugin_state" and v :: view
  defines "firstLine \<equiv> getPartialFirstLine st v"
    and "ps \<equiv> scan_order (mappings_value st)"
  shows
    "((\<forall>p \<in> set ps. \<not> re_search env (snd p) firstLine) \<longrightarrow>
        run env st v = v \<and> run_searched env st v = ps) \<and>
     (\<forall>k. k < length ps \<and> re_search env (snd (ps ! k)) firstLine \<and>
          (\<forall>j<k. \<not> re_search env (snd (ps ! j)) firstLine) \<longrightarrow>
        run env st v = v\<lparr>syntax_file := fst (ps ! k)\<rparr> \<and>
        run_searched env st v = take (Suc k) ps) \<and>
     matchAndSetSyntax env st v = run env st v"
proof (intro conjI impI allI)
  assume "\<forall>p \<in> set ps. \<not> re_search env (snd p) firstLine"
  then have scan: "scan_mappings env firstLine (mappings_value st) = (None, ps)"
    unfolding ps_def by (rule scan_mappings_none)
  show "run env st v = v"
    using scan by (simp add: run_def firstLine_def)
  show "run_searched env st v = ps"
    using scan by (simp add: run_searched_def firstLine_def)
next
  fix k
  assume "k < length ps \<and> re_search env (snd (ps ! k)) firstLine \<and>
          (\<forall>j<k. \<not> re_search env (snd (ps ! j)) firstLine)"
  then have scan: "scan_mappings env firstLine (mappings_value st) =
      (Some (fst (ps ! k)), take (Suc k) ps)"
    unfolding ps_def by (intro scan_mappings_first) simp_all
  show "run env st v = v\<lparr>syntax_file := fst (ps ! k)\<rparr>"
    using scan by (simp add: run_def firstLine_def)
  show "run_searched env st v = take (Suc k) ps"
    using scan by (simp add: run_searched_def firstLine_def)
next
  show "matchAndSetSyntax env st v = run env st v"
    by (simp add: matchAndSetSyntax_def run_def)
qed

theorem run_first_match_wins_witness:
  "run example_env example_state example_view =
     example_view\<lparr>syntax_file := ''Packages/Rails/Ruby on Rails.sublime-syntax''\<rparr> \<and>
   run_searched example_env example_state example_view =
     [(''Packages/Python/Python.sublime-syntax'', ''python''),
      (''Packages/Python/Python.sublime-syntax'', ''#!py''),
      (''Packages/ShellScript/Bash.sublime-syntax'', ''#!/bin/''),
      (''Packages/Rails/Ruby on Rails.sublime-syntax'', ''ruby'')] \<and>
   run example_env example_state (example_view\<lparr>buffer_text := ''plain words''\<rparr>) =
     example_view\<lparr>buffer_text := ''plain words''\<rparr>"
proof -
  let ?ps = "scan_order (mappings_value example_state)"
  let ?line = "''#!/usr/bin/ruby -w''"
  have hit: "3 < length ?ps \<and> re_search example_env (snd (?ps ! 3)) ?line \<and>
      (\<forall>j<3. \<not> re_search example_env (snd (?ps ! j)) ?line)"
    unfolding example_scan_order by (simp add: All_less_Suc numeral_3_eq_3) code_simp
  let ?v = "example_view\<lparr>buffer_text := ''plain words''\<rparr>"
  have line': "getPartialFirstLine example_state ?v = ''plain words''"
    by code_simp
  have miss: "\<forall>p \<in> set ?ps. \<not> re_search example_env (snd p) ''plain words''"
    unfolding example_scan_order by simp code_simp
  from run_first_match_wins[where env=example_env and st=example_state and v=example_view]
  have "run example_env example_state example_view = example_view\<lparr>syntax_file := fst (?ps ! 3)\<rparr> \<and>
        run_searched example_env example_state example_view = take (Suc 3) ?ps"
    using hit unfolding example_first_line by blast
  moreover from run_first_match_wins[where env=example_env and st=example_state and v="?v"]
  have "run example_env example_state ?v = ?v"
    using miss unfolding line' by blast
  ultimately show ?thesis
    unfolding example_scan_order by simp
qed

section \<open>The partial first line\<close>

lemma take_first_line:
  "n \<le> length (first_line v) \<Longrightarrow> take n (buffer_text v) = take n (first_line v)"
proof -
  assume n: "n \<le> length (first_line v)"
  let ?P = "\<lambda>c. c \<noteq> CHR 0x0A"
  have "buffer_text v = first_line v @ dropWhile ?P (buffer_text v)"
    by (simp add: first_line_def)
  then have "take n (buffer_text v) = take n (first_line v @ dropWhile ?P (buffer_text v))"
    by simp
  also from n have "\<dots> = take n (first_line v)" by simp
  finally show ?thesis .
qed

lemma substr_from_0:
  "0 \<le> e \<Longrightarrow> e \<le> line0_end v \<Longrightarrow> substr v (0, e) = take (nat e) (first_line v)"
proof -
  assume e: "0 \<le> e" "e \<le> line0_end v"
  then have "nat e \<le> length (first_line v)" by (simp add: line0_end_def)
  from take_first_line[OF this] e show ?thesis
    by (simp add: substr_def Let_def min_def max_def)
qed

text \<open>
  Claim C3. With \<^verbatim>\<open>first_line_length_max\<close> set to \<open>N\<close>: when \<open>N \<ge> 0\<close> and the first line
  of the buffer is longer than \<open>N\<close>, the text used for matching is its first \<open>N\<close>
  characters; when \<open>N \<ge> 0\<close> and the first line has at most \<open>N\<close> characters, it is
  the whole first line; when \<open>N < 0\<close>, it is the whole first line whatever its length.
\<close>

theorem getPartialFirstLine_length_max:
  fixes st :: "'r plugin_state" and v :: view
  defines "N \<equiv> first_line_length_max (settings st)"
  shows
    "(0 \<le> N \<and> N < int (length (first_line v)) \<longrightarrow>
        getPartialFirstLine st v = take (nat N) (first_line v)) \<and>
     (0 \<le> N \<and> int (length (first_line v)) \<le> N \<longrightarrow>
        getPartialFirstLine st v = first_line v) \<and>
     (N < 0 \<longrightarrow> getPartialFirstLine st v = first_line v)"
proof (intro conjI impI)
  assume "0 \<le> N \<and> N < int (length (first_line v))"
  then have "min (line0_end v) N = N" and "0 \<le> N" and "N \<le> line0_end v"
    by (simp_all add: line0_end_def)
  with substr_from_0[of N v] show "getPartialFirstLine st v = take (nat N) (first_line v)"
    by (simp add: getPartialFirstLine_def N_def)
next
  assume "0 \<le> N \<and> int (length (first_line v)) \<le> N"
  then have "min (line0_end v) N = line0_end v" and "0 \<le> N"
    by (simp_all add: line0_end_def)
  moreover have "substr v (0, line0_end v) = first_line v"
    using substr_from_0[of "line0_end v" v] by (simp add: line0_end_def)
  ultimately show "getPartialFirstLine st v = first_line v"
    by (simp add: getPartialFirstLine_def N_def)
next
  assume "N < 0"
  moreover have "substr v (0, line0_end v) = first_line v"
    using substr_from_0[of "line0_end v" v] by (simp add: line0_end_def)
  ultimately show "getPartialFirstLine st v = first_line v"
    by (simp add: getPartialFirstLine_def N_def)
qed

lemma example_first_line_text: "first_line example_view = ''#!/usr/bin/ruby -w''"
  by code_simp

theorem getPartialFirstLine_length_max_witness:
  "getPartialFirstLine (example_state\<lparr>settings := example_settings\<lparr>first_line_length_max := 5\<rparr>\<rparr>)
     example_view = ''#!/us'' \<and>
   getPartialFirstLine (example_state\<lparr>settings := example_settings\<lparr>first_line_length_max := 18\<rparr>\<rparr>)
     example_view = ''#!/usr/bin/ruby -w'' \<and>
   getPartialFirstLine (example_state\<lparr>settings := example_settings\<lparr>first_line_length_max := - 1\<rparr>\<rparr>)
     example_view = ''#!/usr/bin/ruby -w''"
  using
    getPartialFirstLine_length_max
      [where st="example_state\<lparr>settings := example_settings\<lparr>first_line_length_max := 5\<rparr>\<rparr>"
         and v=example_view]
    getPartialFirstLine_length_max
      [where st="example_state\<lparr>settings := example_settings\<lparr>first_line_length_max := 18\<rparr>\<rparr>"
         and v=example_view]
    getPartialFirstLine_length_max
      [where st="example_state\<lparr>settings := example_settings\<lparr>first_line_length_max := - 1\<rparr>\<rparr>"
         and v=example_view]
  by (simp add: example_first_line_text)

section \<open>The working-scope filter\<close>

lemma isEventListenerEnabled_regex:
  "workingScopeRegex (snd (isEventListenerEnabled st event)) = workingScopeRegex st"
  by (simp add: isEventListenerEnabled_def split: option.splits)

lemma isOnWorkingScope_disabled:
  "workingScopeRegex st = None \<Longrightarrow> \<not> isOnWorkingScope env st v"
  by (simp add: isOnWorkingScope_def)

lemma guarded_run_disabled:
  assumes "workingScopeRegex st = None"
  shows "snd (guarded_run env st v event) = []"
proof -
  obtain enabled st' where en: "isEventListenerEnabled st event = (enabled, st')"
    by (cases "isEventListenerEnabled st event")
  with isEventListenerEnabled_regex[of st event] assms have "workingScopeRegex st' = None"
    by simp
  then have "\<not> isOnWorkingScope env st' v" by (rule isOnWorkingScope_disabled)
  with en show ?thesis by (simp add: guarded_run_def)
qed

lemma on_modified_async_disabled:
  assumes "workingScopeRegex st = None"
  shows "snd (on_modified_async env st v) = Inr []"
proof -
  obtain enabled st' where en: "isEventListenerEnabled st ''on_modified_async'' = (enabled, st')"
    by (cases "isEventListenerEnabled st ''on_modified_async''")
  with isEventListenerEnabled_regex[of st "''on_modified_async''"] assms
  have "workingScopeRegex st' = None" by simp
  then have off: "\<not> isOnWorkingScope env st' v" by (rule isOnWorkingScope_disabled)
  show ?thesis
  proof (cases "sel v")
    case Nil
    then show ?thesis by (simp add: on_modified_async_def en isOnlyOneCursor_def)
  next
    case (Cons r rs)
    then show ?thesis
      by (simp add: on_modified_async_def en off isFirstCursorNearBeginning_def)
  qed
qed

lemma on_post_text_command_disabled:
  "workingScopeRegex st = None \<Longrightarrow> on_post_text_command env st v command_name = (st, [])"
  by (simp add: on_post_text_command_def isOnWorkingScope_disabled)

text \<open>
  Claim C4. When the \<^verbatim>\<open>working_scope\<close> pattern does not compile, \<^verbatim>\<open>compileWorkingScope\<close>
  sets the filter to \<^verbatim>\<open>None\<close>, logs an error and shows an error message, both with the
  pattern as an argument. In every state whose filter is \<^verbatim>\<open>None\<close>, the working-scope check
  is false for every view and none of the seven event listeners runs the command. Once a
  pattern that compiles is configured and compiled, the filter is that pattern and the
  check is its search on the view's scope.
\<close>

theorem compileWorkingScope_fails_closed:
  fixes env :: "'r env" and st :: "'r plugin_state"
  assumes "re_compile env (working_scope (settings st)) = None"
  shows
    \<open>workingScopeRegex (compileWorkingScope env st) = None \<and>
     logger (compileWorkingScope env st) =
       logger st @
       [LogError (''regex compilation failed in user settings "{0}": {1}'',
                  [PStr ''working_scope'', PStr (working_scope (settings st))])] \<and>
     error_messages (compileWorkingScope env st) =
       error_messages st @
       [(''regex compilation failed in user settings "{0}": {1}'',
         [PStr ''working_scope'', PStr (working_scope (settings st))])] \<and>
     (\<forall>st' :: 'r plugin_state. workingScopeRegex st' = None \<longrightarrow>
        (\<forall>v. \<not> isOnWorkingScope env st' v \<and>
             snd (on_activated_async env st' v) = [] \<and>
             snd (on_clone_async env st' v) = [] \<and>
             snd (on_load_async env st' v) = [] \<and>
             snd (on_modified_async env st' v) = Inr [] \<and>
             snd (on_new_async env st' v) = [] \<and>
             (\<forall>command_name. snd (on_post_text_command env st' v command_name) = []) \<and>
             snd (on_pre_save_async env st' v) = [])) \<and>
     (\<forall>(st' :: 'r plugin_state) r. re_compile env (working_scope (settings st')) = Some r \<longrightarrow>
        workingScopeRegex (compileWorkingScope env st') = Some r \<and>
        (\<forall>v. isOnWorkingScope env (compileWorkingScope env st') v = re_search env r (scope_name0 v)))\<close>
proof (intro conjI allI impI)
  show "workingScopeRegex (compileWorkingScope env st) = None"
    using assms by (simp add: compileWorkingScope_def Let_def)
  show \<open>logger (compileWorkingScope env st) =
       logger st @
       [LogError (''regex compilation failed in user settings "{0}": {1}'',
                  [PStr ''working_scope'', PStr (working_scope (settings st))])]\<close>
    using assms by (simp add: compileWorkingScope_def Let_def)
  show \<open>error_messages (compileWorkingScope env st) =
       error_messages st @
       [(''regex compilation failed in user settings "{0}": {1}'',
         [PStr ''working_scope'', PStr (working_scope (settings st))])]\<close>
    using assms by (simp add: compileWorkingScope_def Let_def)
next
  fix st' :: "'r plugin_state" and v
  assume off: "workingScopeRegex st' = None"
  show "\<not> isOnWorkingScope env st' v" using off by (rule isOnWorkingScope_disabled)
  show "snd (on_activated_async env st' v) = []"
    by (simp add: on_activated_async_def guarded_run_disabled[OF off])
  show "snd (on_clone_async env st' v) = []"
    by (simp add: on_clone_async_def guarded_run_disabled[OF off])
  show "snd (on_load_async env st' v) = []"
    by (simp add: on_load_async_def guarded_run_disabled[OF off])
  show "snd (on_modified_async env st' v) = Inr []"
    using off by (rule on_modified_async_disabled)
  show "snd (on_new_async env st' v) = []"
    by (simp add: on_new_async_def guarded_run_disabled[OF off])
  show "snd (on_pre_save_async env st' v) = []"
    by (simp add: on_pre_save_async_def guarded_run_disabled[OF off])
  fix command_name
  show "snd (on_post_text_command env st' v command_name) = []"
    by (simp add: on_post_text_command_disabled[OF off])
next
  fix st' :: "'r plugin_state" and r
  assume ok: "re_compile env (working_scope (settings st')) = Some r"
  then show "workingScopeRegex (compileWorkingScope env st') = Some r"
    by (simp add: compileWorkingScope_def)
  fix v
  from ok show "isOnWorkingScope env (compileWorkingScope env st') v = re_search env r (scope_name0 v)"
    by (simp add: compileWorkingScope_def isOnWorkingScope_def)
qed

theorem compileWorkingScope_fails_closed_witness:
  \<open>workingScopeRegex
      (compileWorkingScope example_env
         (example_state\<lparr>settings := example_settings\<lparr>working_scope := ''(text''\<rparr>\<rparr>)) = None \<and>
    error_messages
      (compileWorkingScope example_env
         (example_state\<lparr>settings := example_settings\<lparr>working_scope := ''(text''\<rparr>\<rparr>)) =
      [(''regex compilation failed in user settings "{0}": {1}'',
        [PStr ''working_scope'', PStr ''(text''])] \<and>
    snd (on_activated_async example_env
      (compileWorkingScope example_env
         (example_state\<lparr>settings := example_settings\<lparr>working_scope := ''(text''\<rparr>\<rparr>))
      example_view) = [] \<and>
    snd (on_post_text_command example_env
      (compileWorkingScope example_env
         (example_state\<lparr>settings := example_settings\<lparr>working_scope := ''(text''\<rparr>\<rparr>))
      example_view ''paste_and_indent'') = [] \<and>
    isOnWorkingScope example_env (compileWorkingScope example_env example_state) example_view\<close>
proof -
  let ?bad = "example_state\<lparr>settings := example_settings\<lparr>working_scope := ''(text''\<rparr>\<rparr>"
  have fails: "re_compile example_env (working_scope (settings ?bad)) = None"
    by code_simp
  have good: "re_compile example_env (working_scope (settings example_state)) = Some ''text.plain''"
    by code_simp
  have matches: "re_search example_env ''text.plain'' (scope_name0 example_view)"
    by code_simp
  have msgs: "error_messages ?bad = []" "working_scope (settings ?bad) = ''(text''"
    by (simp_all add: example_state_def)
  note facts = compileWorkingScope_fails_closed[OF fails]
  from facts have off: "workingScopeRegex (compileWorkingScope example_env ?bad) = None"
    by blast
  from facts have alert: \<open>error_messages (compileWorkingScope example_env ?bad) =
      error_messages ?bad @
      [(''regex compilation failed in user settings "{0}": {1}'',
        [PStr ''working_scope'', PStr (working_scope (settings ?bad))])]\<close>
    by blast
  from facts off have "snd (on_activated_async example_env (compileWorkingScope example_env ?bad) example_view) = []"
    by blast
  moreover from facts off
  have "snd (on_post_text_command example_env (compileWorkingScope example_env ?bad)
          example_view ''paste_and_indent'') = []"
    by blast
  moreover from facts good matches
  have "isOnWorkingScope example_env (compileWorkingScope example_env example_state) example_view"
    by blast
  ultimately show ?thesis
    using off alert unfolding msgs by simp
qed

section \<open>The paste listener\<close>

lemma on_post_text_command_runs_iff:
  "snd (on_post_text_command env st v command_name) =
     (if isOnWorkingScope env st v \<and> fst (isEventListenerEnabled st ''on_post_paste'') \<and>
         (command_name = ''patse'' \<or> command_name = ''paste_and_indent'')
      then [''auto_set_syntax''] else [])"
  by (cases "isEventListenerEnabled st ''on_post_paste''") (simp add: on_post_text_command_def)

lemma paste_command_runs_nothing: "snd (on_post_text_command env st v ''paste'') = []"
  by (simp add: on_post_text_command_runs_iff)

text \<open>
  Claim C6. The claim is that the listener runs the syntax applier after the host's
  \<^verbatim>\<open>paste\<close> command (or \<^verbatim>\<open>paste_and_indent\<close>) when the \<^verbatim>\<open>on_post_paste\<close> toggle is on and the
  view is in the working scope. The listener compares the command name with \<^verbatim>\<open>patse\<close>: in
  the example installation the toggle is on and the view is in the working scope, and the
  listener runs nothing after \<^verbatim>\<open>paste\<close>, while it runs the command after
  \<^verbatim>\<open>paste_and_indent\<close> and after \<^verbatim>\<open>patse\<close>.
\<close>

theorem on_post_text_command_paste_example:
  "fst (isEventListenerEnabled example_state ''on_post_paste'') \<and>
   isOnWorkingScope example_env example_state example_view \<and>
   snd (on_post_text_command example_env example_state example_view ''paste'') = [] \<and>
   snd (on_post_text_command example_env example_state example_view ''paste_and_indent'') =
     [''auto_set_syntax''] \<and>
   snd (on_post_text_command example_env example_state example_view ''patse'') =
     [''auto_set_syntax'']"
  by code_simp

section \<open>Searching a string\<close>

lemma find_from_ge: "find_from sub s i = - 1 \<or> int i \<le> find_from sub s i"
  by (induction sub s i rule: find_from.induct) auto

lemma find_from_le:
  "j \<le> length s \<Longrightarrow> startswith (drop j s) sub \<Longrightarrow>
   find_from sub s i \<noteq> - 1 \<and> find_from sub s i \<le> int (i + j)"
proof (induction sub s i arbitrary: j rule: find_from.induct)
  case (1 sub i)
  then show ?case by (simp add: startswith_def)
next
  case (2 sub c cs i)
  show ?case
  proof (cases "startswith (c # cs) sub")
    case True
    then show ?thesis by simp
  next
    case False
    with 2(3) obtain k where k: "j = Suc k" by (cases j) auto
    with 2(2,3) have "k \<le> length cs" "startswith (drop k cs) sub" by simp_all
    with 2(1)[OF False] have "find_from sub cs (Suc i) \<noteq> - 1 \<and> find_from sub cs (Suc i) \<le> int (Suc i + k)"
      by blast
    with False k show ?thesis by simp
  qed
qed

lemma find_from_none: "find_from sub s i = - 1 \<longleftrightarrow> (\<forall>j \<le> length s. \<not> startswith (drop j s) sub)"
proof (induction sub s i rule: find_from.induct)
  case (1 sub i)
  then show ?case by (auto simp: startswith_def)
next
  case (2 sub c cs i)
  show ?case
  proof (cases "startswith (c # cs) sub")
    case True
    then show ?thesis by (auto intro: exI[of _ 0])
  next
    case False
    have "(\<forall>j \<le> length (c # cs). \<not> startswith (drop j (c # cs)) sub) \<longleftrightarrow> (\<forall>j \<le> length cs. \<not> startswith (drop j cs) sub)"
      (is "?L \<longleftrightarrow> ?R")
    proof
      assume L: ?L
      show ?R proof (intro allI impI)
        fix j assume "j \<le> length cs"
        with L[rule_format, of "Suc j"] show "\<not> startswith (drop j cs) sub" by simp
      qed
    next
      assume R: ?R
      show ?L proof (intro allI impI)
        fix j assume j: "j \<le> length (c # cs)"
        show "\<not> startswith (drop j (c # cs)) sub"
        proof (cases j)
          case 0 with False show ?thesis by simp
        next
          case (Suc k) with j R show ?thesis by simp
        qed
      qed
    qed
    with False 2 show ?thesis by simp
  qed
qed

lemma find_from_at:
  "find_from sub s i \<noteq> - 1 \<Longrightarrow>
   \<exists>p. find_from sub s i = int (i + p) \<and> p \<le> length s \<and> startswith (drop p s) sub \<and>
       (\<forall>j<p. \<not> startswith (drop j s) sub)"
proof (induction sub s i rule: find_from.induct)
  case (1 sub i)
  then show ?case by (auto simp: startswith_def split: if_splits)
next
  case (2 sub c cs i)
  show ?case
  proof (cases "startswith (c # cs) sub")
    case True
    then show ?thesis by (intro exI[of _ 0]) simp
  next
    case False
    with 2(2) have "find_from sub cs (Suc i) \<noteq> - 1" by simp
    from 2(1)[OF False this] obtain p where p: "find_from sub cs (Suc i) = int (Suc i + p)"
      "p \<le> length cs" "startswith (drop p cs) sub" "\<forall>j<p. \<not> startswith (drop j cs) sub"
      by blast
    have "\<forall>j<Suc p. \<not> startswith (drop j (c # cs)) sub"
    proof (intro allI impI)
      fix j assume "j < Suc p"
      then show "\<not> startswith (drop j (c # cs)) sub"
        using False p(4) by (cases j) auto
    qed
    with False p show ?thesis by (intro exI[of _ "Suc p"]) simp
  qed
qed

lemma startswith_append: "startswith (sub @ post) sub"
  by (simp add: startswith_def)

lemma startswith_split: "startswith s sub \<Longrightarrow> s = sub @ drop (length sub) s"
  by (metis append_take_drop_id startswith_def)

text \<open>
  \<open>find_str\<close> returns the index of the first occurrence: the text splits there, and
  the pattern starts at no earlier index.
\<close>

lemma find_str_occurrence:
  assumes "s = pre @ sub @ post"
  shows "\<exists>p. find_str s sub = int p \<and> p \<le> length pre \<and>
             s = take p s @ sub @ drop (p + length sub) s \<and>
             (\<forall>j<p. \<not> startswith (drop j s) sub)"
proof -
  from assms have here: "length pre \<le> length s" "startswith (drop (length pre) s) sub"
    by (simp_all add: startswith_append)
  from find_from_le[OF here, of 0] have found: "find_from sub s 0 \<noteq> - 1"
    and le: "find_from sub s 0 \<le> int (length pre)" by simp_all
  from find_from_at[OF found] obtain p where p: "find_from sub s 0 = int p" "p \<le> length s"
    "startswith (drop p s) sub" "\<forall>j<p. \<not> startswith (drop j s) sub"
    by auto
  from startswith_split[OF p(3)] have "drop p s = sub @ drop (p + length sub) s"
    by (simp add: add.commute)
  then have "s = take p s @ sub @ drop (p + length sub) s"
    by (metis append_take_drop_id)
  with p le show ?thesis by (auto simp: find_str_def)
qed

lemma find_str_none: "find_str s sub = - 1 \<longleftrightarrow> (\<forall>j \<le> length s. \<not> startswith (drop j s) sub)"
  by (simp add: find_str_def find_from_none)

lemma startswith_take:
  assumes "startswith (drop j (take p s)) sub"
  shows "startswith (drop j s) sub"
proof -
  from assms have eq: "take (length sub) (take (p - j) (drop j s)) = sub"
    by (simp add: startswith_def drop_take)
  then have "length (take (length sub) (take (p - j) (drop j s))) = length sub" by simp
  then have "length sub \<le> p - j" by simp
  with eq show ?thesis by (simp add: startswith_def min_def)
qed

lemma find_str_take_none:
  assumes "find_str s sub = - 1"
  shows "find_str (take p s) sub = - 1"
proof -
  have "\<not> startswith (drop j (take p s)) sub" if "j \<le> length (take p s)" for j
  proof
    assume "startswith (drop j (take p s)) sub"
    then have "startswith (drop j s) sub" by (rule startswith_take)
    moreover from that have "j \<le> length s" by simp
    ultimately show False using assms by (simp add: find_str_none)
  qed
  then show ?thesis by (simp add: find_str_none)
qed

section \<open>The YAML extractor\<close>

lemma findFirstLineMatchYaml_cut:
  "findFirstLineMatchYaml yl s =
     (if find_str (before_contexts s) ''first_line_match'' = - 1 then Inr PNone
      else
        (case yl (before_contexts s) of
           Inl e \<Rightarrow> Inl e
         | Inr yamlDict \<Rightarrow>
             (case contains_str yamlDict ''first_line_match'' of
                Inl e \<Rightarrow> Inl e
              | Inr True \<Rightarrow> getitem_str yamlDict ''first_line_match''
              | Inr False \<Rightarrow> Inr PNone)))"
  unfolding findFirstLineMatchYaml_def before_contexts_def Let_def by (simp cong: if_cong)

lemma dict_lookup:
  "(case contains_str (PDict kvs) k of
      Inl e \<Rightarrow> Inl e
    | Inr True \<Rightarrow> getitem_str (PDict kvs) k
    | Inr False \<Rightarrow> Inr PNone) =
   Inr (case map_of kvs (PStr k) of Some v \<Rightarrow> v | None \<Rightarrow> PNone)"
proof (cases "map_of kvs (PStr k)")
  case None
  then have "PStr k \<notin> fst ` set kvs" by (simp add: map_of_eq_None_iff)
  with None show ?thesis by simp
next
  case (Some v)
  then have "PStr k \<in> fst ` set kvs" by (metis map_of_eq_None_iff option.distinct(1))
  with Some show ?thesis by simp
qed

lemma non_mapping_lookup:
  "(case contains_str v k of
      Inl e \<Rightarrow> Inl e
    | Inr True \<Rightarrow> getitem_str v k
    | Inr False \<Rightarrow> Inr PNone) =
   (case v of
      PDict kvs \<Rightarrow> Inr (case map_of kvs (PStr k) of Some x \<Rightarrow> x | None \<Rightarrow> PNone)
    | PStr t \<Rightarrow> if find_str t k \<noteq> - 1 then Inl TypeError else Inr PNone
    | PList xs \<Rightarrow> if PStr k \<in> set xs then Inl TypeError else Inr PNone
    | _ \<Rightarrow> Inl TypeError)"
proof (cases v)
  case (PDict kvs)
  show ?thesis unfolding PDict by (simp only: dict_lookup pyval.case)
qed simp_all

text \<open>
  Claim C7, as stated, fails: the claim is that, when the truncated text contains
  \<^verbatim>\<open>first_line_match\<close>, the extractor parses it and returns the field's value if present,
  else \<^verbatim>\<open>None\<close>. In the content below the only mention of \<^verbatim>\<open>first_line_match\<close> before the
  marker is in a comment: the truncated text contains the literal and loads to \<^verbatim>\<open>None\<close>,
  and the membership test on \<^verbatim>\<open>None\<close> raises \<^verbatim>\<open>TypeError\<close>.
\<close>

theorem comment_only_yaml_counterexample:
  "find_str (before_contexts commented_syntax) ''first_line_match'' \<noteq> - 1 \<and>
   example_yaml_load (before_contexts commented_syntax) = Inr PNone \<and>
   findFirstLineMatchYaml example_yaml_load commented_syntax = Inl TypeError \<and>
   findFirstLineMatch example_yaml_load commented_syntax = Inl TypeError"
  by code_simp

text \<open>
  Claim C7, amended. For every content string, \<^verbatim>\<open>findFirstLineMatchYaml\<close> works on the
  content cut at the first occurrence of \<^verbatim>\<open>contexts:\<close> (the whole content when there is
  none; the cut text ends where the first marker starts and holds no marker). When the
  cut text does not contain \<^verbatim>\<open>first_line_match\<close>, the result is \<^verbatim>\<open>None\<close> whatever the loader
  is, so nothing is parsed. Otherwise the loader is applied to the cut text: what it
  raises is raised; when it returns a mapping, the result is the value under the key
  \<^verbatim>\<open>first_line_match\<close> if the mapping has the key and \<^verbatim>\<open>None\<close> if not; when it returns a
  string or a sequence, the result is \<^verbatim>\<open>None\<close> if the literal is not in it and
  \<^verbatim>\<open>TypeError\<close> is raised if it is; when it returns any other object (\<^verbatim>\<open>None\<close> among them),
  \<^verbatim>\<open>TypeError\<close> is raised. In particular, when \<^verbatim>\<open>first_line_match\<close> does not occur before
  a \<^verbatim>\<open>contexts:\<close> marker, the result is \<^verbatim>\<open>None\<close>.
\<close>

theorem findFirstLineMatchYaml_truncates:
  fixes yl :: "string \<Rightarrow> py_error + pyval" and s :: string
  shows
    "(find_str s ''contexts:'' = - 1 \<longrightarrow> before_contexts s = s) \<and>
     (\<forall>pre post. s = pre @ ''contexts:'' @ post \<longrightarrow>
        length (before_contexts s) \<le> length pre \<and>
        (\<exists>post'. s = before_contexts s @ ''contexts:'' @ post') \<and>
        find_str (before_contexts s) ''contexts:'' = - 1) \<and>
     (find_str (before_contexts s) ''first_line_match'' = - 1 \<longrightarrow>
        (\<forall>yl'. findFirstLineMatchYaml yl' s = Inr PNone)) \<and>
     (find_str (before_contexts s) ''first_line_match'' \<noteq> - 1 \<longrightarrow>
        findFirstLineMatchYaml yl s =
          (case yl (before_contexts s) of
             Inl e \<Rightarrow> Inl e
           | Inr (PDict kvs) \<Rightarrow>
               Inr (case map_of kvs (PStr ''first_line_match'') of Some v \<Rightarrow> v | None \<Rightarrow> PNone)
           | Inr (PStr t) \<Rightarrow>
               if find_str t ''first_line_match'' \<noteq> - 1 then Inl TypeError else Inr PNone
           | Inr (PList xs) \<Rightarrow>
               if PStr ''first_line_match'' \<in> set xs then Inl TypeError else Inr PNone
           | Inr _ \<Rightarrow> Inl TypeError)) \<and>
     (\<forall>pre post. s = pre @ ''contexts:'' @ post \<and> find_str pre ''first_line_match'' = - 1 \<longrightarrow>
        findFirstLineMatchYaml yl s = Inr PNone)"
proof (intro conjI allI impI)
  assume "find_str s ''contexts:'' = - 1"
  then show "before_contexts s = s" by (simp add: before_contexts_def)
next
  fix pre post
  assume s: "s = pre @ ''contexts:'' @ post"
  from find_str_occurrence[OF s] obtain p where p: "find_str s ''contexts:'' = int p"
    "p \<le> length pre" "s = take p s @ ''contexts:'' @ drop (p + length ''contexts:'') s"
    "\<forall>j<p. \<not> startswith (drop j s) ''contexts:''"
    by blast
  from p(1) have cut: "before_contexts s = take p s" by (simp add: before_contexts_def)
  from p(2) show "length (before_contexts s) \<le> length pre" unfolding cut by simp
  from p(3) show "\<exists>post'. s = before_contexts s @ ''contexts:'' @ post'"
    unfolding cut by blast
  have "\<not> startswith (drop j (take p s)) ''contexts:''" if "j \<le> length (take p s)" for j
  proof
    assume a: "startswith (drop j (take p s)) ''contexts:''"
    then have "startswith (drop j s) ''contexts:''" by (rule startswith_take)
    moreover have "j < p"
    proof (rule ccontr)
      assume "\<not> j < p"
      then have "drop j (take p s) = []" by simp
      with a show False by (simp add: startswith_def)
    qed
    ultimately show False using p(4) by blast
  qed
  then show "find_str (before_contexts s) ''contexts:'' = - 1"
    unfolding cut by (simp add: find_str_none)
next
  fix yl'
  assume "find_str (before_contexts s) ''first_line_match'' = - 1"
  then show "findFirstLineMatchYaml yl' s = Inr PNone"
    by (simp add: findFirstLineMatchYaml_cut)
next
  assume "find_str (before_contexts s) ''first_line_match'' \<noteq> - 1"
  then show "findFirstLineMatchYaml yl s =
          (case yl (before_contexts s) of
             Inl e \<Rightarrow> Inl e
           | Inr (PDict kvs) \<Rightarrow>
               Inr (case map_of kvs (PStr ''first_line_match'') of Some v \<Rightarrow> v | None \<Rightarrow> PNone)
           | Inr (PStr t) \<Rightarrow>
               if find_str t ''first_line_match'' \<noteq> - 1 then Inl TypeError else Inr PNone
           | Inr (PList xs) \<Rightarrow>
               if PStr ''first_line_match'' \<in> set xs then Inl TypeError else Inr PNone
           | Inr _ \<Rightarrow> Inl TypeError)"
    by (cases "yl (before_contexts s)")
       (simp_all only: findFirstLineMatchYaml_cut non_mapping_lookup if_False sum.case)
next
  fix pre post
  assume a: "s = pre @ ''contexts:'' @ post \<and> find_str pre ''first_line_match'' = - 1"
  then have s: "s = pre @ ''contexts:'' @ post" and none: "find_str pre ''first_line_match'' = - 1"
    by simp_all
  from find_str_occurrence[OF s] obtain p where p: "find_str s ''contexts:'' = int p"
    "p \<le> length pre" by blast
  from p have "before_contexts s = take p pre" by (simp add: before_contexts_def s)
  with find_str_take_none[OF none, of p]
  have "find_str (before_contexts s) ''first_line_match'' = - 1" by simp
  then show "findFirstLineMatchYaml yl s = Inr PNone"
    by (simp add: findFirstLineMatchYaml_cut)
qed

theorem findFirstLineMatchYaml_truncates_witness:
  "findFirstLineMatchYaml example_yaml_load ruby_syntax = Inr (PStr ''ruby'') \<and>
   findFirstLineMatchYaml example_yaml_load broken_syntax = Inl YAMLError \<and>
   findFirstLineMatchYaml example_yaml_load
     (''%YAML 1.2\<newline>name: Ruby\<newline>'' @ ''contexts:'' @ ''\<newline>first_line_match: ruby\<newline>'') = Inr PNone"
proof -
  have has: "find_str (before_contexts ruby_syntax) ''first_line_match'' \<noteq> - 1"
    by code_simp
  have loads: "example_yaml_load (before_contexts ruby_syntax) =
      Inr (PDict [(PStr ''name'', PStr ''Ruby''), (PStr ''first_line_match'', PStr ''ruby'')])"
    by code_simp
  have has': "find_str (before_contexts broken_syntax) ''first_line_match'' \<noteq> - 1"
    by code_simp
  have raises: "example_yaml_load (before_contexts broken_syntax) = Inl YAMLError"
    by code_simp
  have none: "find_str ''%YAML 1.2\<newline>name: Ruby\<newline>'' ''first_line_match'' = - 1"
    by code_simp
  from findFirstLineMatchYaml_truncates[of ruby_syntax example_yaml_load] has
  have "findFirstLineMatchYaml example_yaml_load ruby_syntax = Inr (PStr ''ruby'')"
    unfolding loads by simp
  moreover from findFirstLineMatchYaml_truncates[of broken_syntax example_yaml_load] has'
  have "findFirstLineMatchYaml example_yaml_load broken_syntax = Inl YAMLError"
    unfolding raises by simp
  moreover from findFirstLineMatchYaml_truncates
      [of "''%YAML 1.2\<newline>name: Ruby\<newline>'' @ ''contexts:'' @ ''\<newline>first_line_match: ruby\<newline>''"
          example_yaml_load] none
  have "findFirstLineMatchYaml example_yaml_load
     (''%YAML 1.2\<newline>name: Ruby\<newline>'' @ ''contexts:'' @ ''\<newline>first_line_match: ruby\<newline>'') = Inr PNone"
    by blast
  ultimately show ?thesis by simp
qed

section \<open>Building the mapping table\<close>

lemma compileFirstLineMatches_fst:
  "fst (compileFirstLineMatches env f pats) = List.map_filter (re_compile env) pats"
  by (induction pats) (auto split: prod.splits option.splits)

lemma buildSyntaxMappingsFromUser_fst:
  "fst (buildSyntaxMappingsFromUser env sm) =
     filter (\<lambda>e. snd e \<noteq> [])
       (map (\<lambda>(f, pats). (f, List.map_filter (re_compile env) pats)) sm)"
proof (induction sm)
  case Nil
  then show ?case by simp
next
  case (Cons e sm)
  obtain f pats where e: "e = (f, pats)" by (cases e)
  from Cons compileFirstLineMatches_fst[of env f pats] show ?case
    by (auto simp: e split: prod.splits)
qed

lemma user_entries_nonempty:
  "e \<in> set (fst (buildSyntaxMappingsFromUser env sm)) \<Longrightarrow> snd e \<noteq> []"
  by (simp add: buildSyntaxMappingsFromUser_fst)

lemma build_from_resources_raises:
  "f \<in> set files \<Longrightarrow> findFirstLineMatch (yaml_load env) (load_resource env f) = Inl e \<Longrightarrow>
   \<exists>e'. snd (build_from_resources env files) = Inl e'"
proof (induction files)
  case Nil
  then show ?case by simp
next
  case (Cons g files)
  show ?case
  proof (cases "findFirstLineMatch (yaml_load env) (load_resource env g)")
    case (Inl e')
    then show ?thesis by simp
  next
    case (Inr v)
    with Cons.prems have "f \<in> set files" by auto
    from Cons.IH[OF this Cons.prems(2)] obtain e' where
      "snd (build_from_resources env files) = Inl e'" by blast
    then show ?thesis
      by (cases "build_from_resources env files")
         (auto simp: Inr split: option.splits)
  qed
qed

lemma build_from_resources_returns:
  "\<forall>f \<in> set files. \<exists>v. findFirstLineMatch (yaml_load env) (load_resource env f) = Inr v \<Longrightarrow>
   snd (build_from_resources env files) = Inr (List.map_filter (resource_entry env) files)"
proof (induction files)
  case Nil
  then show ?case by simp
next
  case (Cons g files)
  from Cons.prems obtain v where v: "findFirstLineMatch (yaml_load env) (load_resource env g) = Inr v"
    by auto
  from Cons have IH: "snd (build_from_resources env files) = Inr (List.map_filter (resource_entry env) files)"
    by simp
  have g: "resource_entry env g =
      (if v = PNone then None else map_option (\<lambda>r. (g, [r])) (compile_value env v))"
    by (simp add: resource_entry_def v)
  from IH show ?case
    by (cases "build_from_resources env files")
       (auto simp: v g split: option.splits)
qed

lemma build_from_resources_Inr:
  "snd (build_from_resources env files) = Inr es \<Longrightarrow>
   es = List.map_filter (resource_entry env) files \<and>
   (\<forall>f \<in> set files. \<exists>v. findFirstLineMatch (yaml_load env) (load_resource env f) = Inr v)"
proof -
  assume a: "snd (build_from_resources env files) = Inr es"
  have all: "\<forall>f \<in> set files. \<exists>v. findFirstLineMatch (yaml_load env) (load_resource env f) = Inr v"
  proof
    fix f assume f: "f \<in> set files"
    show "\<exists>v. findFirstLineMatch (yaml_load env) (load_resource env f) = Inr v"
    proof (cases "findFirstLineMatch (yaml_load env) (load_resource env f)")
      case (Inl e)
      from build_from_resources_raises[OF f Inl] a show ?thesis by auto
    next
      case (Inr v)
      then show ?thesis by blast
    qed
  qed
  from build_from_resources_returns[OF all] a show ?thesis using all by simp
qed

lemma resource_entry_single: "resource_entry env f = Some e \<Longrightarrow> \<exists>r. e = (f, [r])"
  by (auto simp: resource_entry_def split: sum.splits if_splits)

lemma host_entries_single:
  assumes "snd (build_from_resources env files) = Inr es" and "e \<in> set es"
  shows "\<exists>f r. e = (f, [r]) \<and> f \<in> set files \<and> resource_entry env f = Some e"
proof -
  from build_from_resources_Inr[OF assms(1)] assms(2)
  have "e \<in> set (List.map_filter (resource_entry env) files)" by simp
  then obtain f where f: "f \<in> set files" "resource_entry env f = Some e"
    by (auto simp: List.map_filter_def)
  with resource_entry_single[OF f(2)] show ?thesis by blast
qed

lemma rebuild_fields:
  "syntaxMappingsSt (rebuildSyntaxMappings env st) = syntaxMappingsSt st"
  "syntaxMappings (rebuildSyntaxMappings env st) =
     fst (buildSyntaxMappingsFromUser env (syntax_mapping (settings st))) @ syntaxMappingsSt st"
  "settings (rebuildSyntaxMappings env st) = settings st"
  by (simp_all add: rebuildSyntaxMappings_def split: prod.splits)

lemma compileWorkingScope_fields:
  "syntaxMappingsSt (compileWorkingScope env st) = syntaxMappingsSt st"
  "syntaxMappings (compileWorkingScope env st) = syntaxMappings st"
  "settings (compileWorkingScope env st) = settings st"
  by (simp_all add: compileWorkingScope_def Let_def split: option.splits)

lemma isEventListenerEnabled_fields:
  "syntaxMappingsSt (snd (isEventListenerEnabled st event)) = syntaxMappingsSt st"
  "syntaxMappings (snd (isEventListenerEnabled st event)) = syntaxMappings st"
  by (simp_all add: isEventListenerEnabled_def split: option.splits)

lemma plugin_loaded_table:
  assumes "plugin_loaded env s = Inr st"
  shows "snd (buildSyntaxMappingsFromSt env) = Inr (syntaxMappingsSt st) \<and>
         settings st = s \<and>
         syntaxMappings st = fst (buildSyntaxMappingsFromUser env (syntax_mapping s)) @ syntaxMappingsSt st"
proof -
  obtain logs res where b: "buildSyntaxMappingsFromSt env = (logs, res)"
    by (cases "buildSyntaxMappingsFromSt env")
  show ?thesis
  proof (cases res)
    case (Inl e)
    with assms b show ?thesis by (simp add: plugin_loaded_def SyntaxMappings_init_def)
  next
    case (Inr fromSt)
    with assms b show ?thesis
      by (auto simp: plugin_loaded_def SyntaxMappings_init_def rebuild_fields
          compileWorkingScope_fields initial_state_def)
  qed
qed

lemma reachable_table:
  "reachable env st \<Longrightarrow>
   snd (buildSyntaxMappingsFromSt env) = Inr (syntaxMappingsSt st) \<and>
   (\<exists>sm. syntaxMappings st = fst (buildSyntaxMappingsFromUser env sm) @ syntaxMappingsSt st)"
proof (induction rule: reachable.induct)
  case (loaded s st)
  from plugin_loaded_table[OF this] show ?case by blast
next
  case (settings_changed st s)
  then show ?case by simp
next
  case (rebuilt st)
  then show ?case by (auto simp: rebuild_fields)
next
  case (recompiled st)
  then show ?case by (simp add: compileWorkingScope_fields)
next
  case (listener_checked st event)
  then show ?case by (simp add: isEventListenerEnabled_fields)
qed

section \<open>The entries of the table\<close>

lemma example_reachable: "reachable example_env example_state"
  using example_loaded by (rule reachable.loaded)

lemma example_user_settings:
  "(''Packages/Lisp/Lisp.sublime-syntax'', [''(defun'']) \<in> set (syntax_mapping example_settings) \<and>
   distinct (map fst (syntax_mapping example_settings)) \<and>
   (\<forall>p \<in> set [''(defun'']. re_compile example_env p = None)"
  by code_simp

lemma example_table_members:
  "(''Packages/Python/Python.sublime-syntax'', [''python'', ''#!py'']) \<in> set (mappings_value example_state)"
  "(''Packages/Ruby/Ruby.sublime-syntax'', [''ruby'']) \<in> set (syntaxMappingsSt example_state)"
  by code_simp+

lemma example_host_mappings:
  "snd (buildSyntaxMappingsFromSt example_env) = Inr (syntaxMappingsSt example_state)"
  by code_simp

lemma map_filter_all_None: "\<forall>x \<in> set xs. f x = None \<Longrightarrow> List.map_filter f xs = []"
  by (induction xs) auto

lemma user_entry_omitted:
  assumes "(f, pats) \<in> set sm" and "distinct (map fst sm)"
    and "\<forall>p \<in> set pats. re_compile env p = None"
  shows "f \<notin> fst ` set (fst (buildSyntaxMappingsFromUser env sm))"
proof
  assume "f \<in> fst ` set (fst (buildSyntaxMappingsFromUser env sm))"
  then obtain rs where "(f, rs) \<in> set (fst (buildSyntaxMappingsFromUser env sm))" by auto
  then obtain pats' where p: "(f, pats') \<in> set sm" "rs = List.map_filter (re_compile env) pats'"
    "rs \<noteq> []"
    by (auto simp: buildSyntaxMappingsFromUser_fst)
  from assms(1,2) p(1) have "pats' = pats" by (meson eq_key_imp_eq_value)
  with p(2,3) map_filter_all_None[OF assms(3)] show False by simp
qed

lemma host_entry_compiled:
  assumes "snd (buildSyntaxMappingsFromSt env) = Inr es" and "e \<in> set es"
  shows "\<exists>v r. fst e \<in> set (findSyntaxResources env True) \<and>
           findFirstLineMatch (yaml_load env) (load_resource env (fst e)) = Inr v \<and>
           compile_value env v = Some r \<and> snd e = [r]"
proof -
  from assms have "snd (build_from_resources env (findSyntaxResources env True)) = Inr es"
    by (simp add: buildSyntaxMappingsFromSt_def)
  from host_entries_single[OF this assms(2)] obtain f r where
    e: "e = (f, [r])" "f \<in> set (findSyntaxResources env True)" "resource_entry env f = Some e"
    by blast
  from e(3) e(1) show ?thesis using e(2)
    by (auto simp: resource_entry_def split: sum.splits if_splits)
qed

text \<open>
  Claim C8. In every state the loaded plugin can reach, no entry that \<^verbatim>\<open>value()\<close> returns
  has an empty pattern list. A user entry (of a configuration whose keys are distinct, as
  those of a dictionary are) whose patterns all fail to compile is not in the
  user-defined entries. Every entry of the host-discovered list comes from a resource
  for which the extractor returned a pattern that compiled, and holds that pattern.
\<close>

theorem value_entries_nonempty:
  fixes env :: "'r env"
  shows
    "(\<forall>st. reachable env st \<longrightarrow> (\<forall>e \<in> set (mappings_value st). snd e \<noteq> [])) \<and>
     (\<forall>sm f pats. (f, pats) \<in> set sm \<and> distinct (map fst sm) \<and>
          (\<forall>p \<in> set pats. re_compile env p = None) \<longrightarrow>
          f \<notin> fst ` set (fst (buildSyntaxMappingsFromUser env sm))) \<and>
     (\<forall>es e. snd (buildSyntaxMappingsFromSt env) = Inr es \<and> e \<in> set es \<longrightarrow>
          (\<exists>v r. findFirstLineMatch (yaml_load env) (load_resource env (fst e)) = Inr v \<and>
                 compile_value env v = Some r \<and> snd e = [r]))"
proof (intro conjI allI impI ballI)
  fix st e
  assume r: "reachable env st" and e: "e \<in> set (mappings_value st)"
  from reachable_table[OF r] obtain sm where
    host: "snd (buildSyntaxMappingsFromSt env) = Inr (syntaxMappingsSt st)" and
    tab: "syntaxMappings st = fst (buildSyntaxMappingsFromUser env sm) @ syntaxMappingsSt st"
    by blast
  from e tab consider "e \<in> set (fst (buildSyntaxMappingsFromUser env sm))"
    | "e \<in> set (syntaxMappingsSt st)"
    by (auto simp: mappings_value_def)
  then show "snd e \<noteq> []"
  proof cases
    case 1
    then show ?thesis by (rule user_entries_nonempty)
  next
    case 2
    from host_entry_compiled[OF host 2] show ?thesis by auto
  qed
next
  fix sm :: "(string \<times> string list) list" and f pats
  assume "(f, pats) \<in> set sm \<and> distinct (map fst sm) \<and>
          (\<forall>p \<in> set pats. re_compile env p = None)"
  then show "f \<notin> fst ` set (fst (buildSyntaxMappingsFromUser env sm))"
    using user_entry_omitted by blast
next
  fix es e
  assume "snd (buildSyntaxMappingsFromSt env) = Inr es \<and> e \<in> set es"
  then show "\<exists>v r. findFirstLineMatch (yaml_load env) (load_resource env (fst e)) = Inr v \<and>
                 compile_value env v = Some r \<and> snd e = [r]"
    using host_entry_compiled by blast
qed

theorem value_entries_nonempty_witness:
  "snd (''Packages/Python/Python.sublime-syntax'', [''python'', ''#!py'']) \<noteq> ([] :: string list) \<and>
   ''Packages/Lisp/Lisp.sublime-syntax'' \<notin>
     fst ` set (fst (buildSyntaxMappingsFromUser example_env (syntax_mapping example_settings))) \<and>
   (\<exists>v r. findFirstLineMatch (yaml_load example_env)
             (load_resource example_env ''Packages/Ruby/Ruby.sublime-syntax'') = Inr v \<and>
          compile_value example_env v = Some r \<and> [''ruby''] = [r])"
proof -
  note facts = value_entries_nonempty[where env=example_env]
  from facts example_reachable example_table_members(1)
  have "snd (''Packages/Python/Python.sublime-syntax'', [''python'', ''#!py'']) \<noteq> ([] :: string list)"
    by blast
  moreover from facts example_user_settings
  have "''Packages/Lisp/Lisp.sublime-syntax'' \<notin>
     fst ` set (fst (buildSyntaxMappingsFromUser example_env (syntax_mapping example_settings)))"
    by blast
  moreover from facts example_host_mappings example_table_members(2)
  have "\<exists>v r. findFirstLineMatch (yaml_load example_env)
             (load_resource example_env (fst (''Packages/Ruby/Ruby.sublime-syntax'', [''ruby'']))) = Inr v \<and>
          compile_value example_env v = Some r \<and>
          snd (''Packages/Ruby/Ruby.sublime-syntax'', [''ruby'']) = [r]"
    by blast
  ultimately show ?thesis by simp
qed

text \<open>
  Claim C10. In every state the loaded plugin can reach, the host-discovered entries are
  the list \<^verbatim>\<open>buildSyntaxMappingsFromSt\<close> returns and each has exactly one pattern; the table
  is the user-defined entries of some configuration followed by them, so an entry of the
  table with more than one pattern stands among the user-defined ones.
\<close>

theorem host_entries_one_pattern:
  fixes env :: "'r env"
  assumes "reachable env st"
  shows
    "snd (buildSyntaxMappingsFromSt env) = Inr (syntaxMappingsSt st) \<and>
     (\<forall>e \<in> set (syntaxMappingsSt st). length (snd e) = 1) \<and>
     (\<exists>sm. mappings_value st = fst (buildSyntaxMappingsFromUser env sm) @ syntaxMappingsSt st \<and>
        (\<forall>i < length (mappings_value st).
           length (snd (mappings_value st ! i)) > 1 \<longrightarrow>
           i < length (fst (buildSyntaxMappingsFromUser env sm))))"
proof -
  from reachable_table[OF assms] obtain sm where
    host: "snd (buildSyntaxMappingsFromSt env) = Inr (syntaxMappingsSt st)" and
    tab: "syntaxMappings st = fst (buildSyntaxMappingsFromUser env sm) @ syntaxMappingsSt st"
    by blast
  have one: "\<forall>e \<in> set (syntaxMappingsSt st). length (snd e) = 1"
  proof
    fix e assume "e \<in> set (syntaxMappingsSt st)"
    from host_entry_compiled[OF host this] show "length (snd e) = 1" by auto
  qed
  let ?user = "fst (buildSyntaxMappingsFromUser env sm)"
  have "\<forall>i < length (mappings_value st).
           length (snd (mappings_value st ! i)) > 1 \<longrightarrow> i < length ?user"
  proof (intro allI impI)
    fix i
    assume i: "i < length (mappings_value st)" and many: "length (snd (mappings_value st ! i)) > 1"
    show "i < length ?user"
    proof (rule ccontr)
      assume "\<not> i < length ?user"
      with i have "mappings_value st ! i = syntaxMappingsSt st ! (i - length ?user)"
        and "i - length ?user < length (syntaxMappingsSt st)"
        by (simp_all add: mappings_value_def tab nth_append)
      with one have "length (snd (mappings_value st ! i)) = 1" by simp
      with many show False by simp
    qed
  qed
  with host one tab show ?thesis unfolding mappings_value_def by blast
qed

theorem host_entries_one_pattern_witness:
  "snd (buildSyntaxMappingsFromSt example_env) =
     Inr [(''Packages/Ruby/Ruby.sublime-syntax'', [''ruby'']),
          (''Packages/PHP/PHP.tmLanguage'', [''php''])] \<and>
   length (snd (mappings_value example_state ! 0)) = 2"
proof -
  from host_entries_one_pattern[OF example_reachable]
  have "snd (buildSyntaxMappingsFromSt example_env) = Inr (syntaxMappingsSt example_state)"
    by blast
  moreover have "syntaxMappingsSt example_state =
     [(''Packages/Ruby/Ruby.sublime-syntax'', [''ruby'']),
      (''Packages/PHP/PHP.tmLanguage'', [''php''])]"
    by code_simp
  moreover have "length (snd (mappings_value example_state ! 0)) = 2"
    by code_simp
  ultimately show ?thesis by simp
qed

section \<open>User entries before host entries\<close>

lemma scan_regexes_found:
  "fst (scan_regexes env line rs) = (\<exists>r \<in> set rs. re_search env r line)"
  by (induction rs) (auto split: prod.splits)

lemma scan_mappings_entry:
  "i < length t \<Longrightarrow> \<exists>r \<in> set (snd (t ! i)). re_search env r line \<Longrightarrow>
   \<forall>j<i. \<forall>r \<in> set (snd (t ! j)). \<not> re_search env r line \<Longrightarrow>
   fst (scan_mappings env line t) = Some (fst (t ! i))"
proof (induction t arbitrary: i)
  case Nil
  then show ?case by simp
next
  case (Cons e t)
  obtain f rs where e: "e = (f, rs)" by (cases e)
  obtain found searched where sr: "scan_regexes env line rs = (found, searched)"
    by (cases "scan_regexes env line rs")
  with scan_regexes_found[of env line rs] have found: "found = (\<exists>r \<in> set rs. re_search env r line)"
    by simp
  show ?case
  proof (cases i)
    case 0
    with Cons.prems(2) found e have found by simp
    with sr 0 e show ?thesis by simp
  next
    case (Suc i')
    with Cons.prems(3) e have "\<forall>r \<in> set rs. \<not> re_search env r line" by fastforce
    with found have nf: "\<not> found" by simp
    from Suc Cons.prems have "i' < length t" "\<exists>r \<in> set (snd (t ! i')). re_search env r line"
      by simp_all
    moreover have "\<forall>j<i'. \<forall>r \<in> set (snd (t ! j)). \<not> re_search env r line"
    proof (intro allI impI)
      fix j assume "j < i'"
      with Suc have "Suc j < i" by simp
      with Cons.prems(3) have "\<forall>r \<in> set (snd ((e # t) ! Suc j)). \<not> re_search env r line" by blast
      then show "\<forall>r \<in> set (snd (t ! j)). \<not> re_search env r line" by simp
    qed
    ultimately have "fst (scan_mappings env line t) = Some (fst (t ! i'))" by (rule Cons.IH)
    with sr nf Suc e show ?thesis by (cases "scan_mappings env line t") auto
  qed
qed

lemma example_user_entries:
  "fst (buildSyntaxMappingsFromUser example_env (syntax_mapping example_settings)) =
     [(''Packages/Python/Python.sublime-syntax'', [''python'', ''#!py'']),
      (''Packages/ShellScript/Bash.sublime-syntax'', [''#!/bin/'']),
      (''Packages/Rails/Ruby on Rails.sublime-syntax'', [''ruby''])]"
  by code_simp

text \<open>
  Claim C2, as stated, fails: the claim is that whenever the first line matches a pattern
  of a user mapping \<open>U\<close> and a pattern of a host-discovered mapping \<open>H\<close>, the syntax applied
  is \<open>U\<close>'s. In the example installation the first line \<^verbatim>\<open>#!/bin/ruby\<close> matches the user
  mapping of Ruby on Rails and the host-discovered mapping of Ruby, and the syntax applied
  is that of Bash, an earlier user mapping that matches too.
\<close>

theorem user_precedence_counterexample:
  "(''Packages/Rails/Ruby on Rails.sublime-syntax'', [''ruby'']) \<in>
     set (fst (buildSyntaxMappingsFromUser example_env (syntax_mapping (settings example_state)))) \<and>
   (''Packages/Ruby/Ruby.sublime-syntax'', [''ruby'']) \<in> set (syntaxMappingsSt example_state) \<and>
   mappings_value example_state =
     fst (buildSyntaxMappingsFromUser example_env (syntax_mapping (settings example_state))) @
     syntaxMappingsSt example_state \<and>
   re_search example_env ''ruby''
     (getPartialFirstLine example_state (example_view\<lparr>buffer_text := ''#!/bin/ruby''\<rparr>)) \<and>
   syntax_file (run example_env example_state (example_view\<lparr>buffer_text := ''#!/bin/ruby''\<rparr>)) =
     ''Packages/ShellScript/Bash.sublime-syntax''"
  by code_simp

text \<open>
  Claim C2, amended. After a rebuild, and once the plugin is loaded, \<^verbatim>\<open>value()\<close> is the
  user-defined entries followed by the host-discovered entries; the user-defined entries
  are those of the configuration in its order, each with its patterns that compile, the
  entries left with no pattern dropped; the host-discovered entries are those of the
  discovered resources, in discovery order. Consequently, when the table is a list \<open>user\<close>
  followed by a list \<open>host\<close> and the first line matches a pattern of a user entry, the
  syntax applied is that of the first user entry with a matching pattern, whatever
  \<open>host\<close> is.
\<close>

theorem value_user_then_host:
  fixes env :: "'r env"
  shows
    "(\<forall>st. mappings_value (rebuildSyntaxMappings env st) =
        fst (buildSyntaxMappingsFromUser env (syntax_mapping (settings st))) @ syntaxMappingsSt st) \<and>
     (\<forall>s st. plugin_loaded env s = Inr st \<longrightarrow>
        mappings_value st =
          fst (buildSyntaxMappingsFromUser env (syntax_mapping s)) @ syntaxMappingsSt st) \<and>
     (\<forall>st. reachable env st \<longrightarrow>
        snd (buildSyntaxMappingsFromSt env) = Inr (syntaxMappingsSt st) \<and>
        syntaxMappingsSt st = List.map_filter (resource_entry env) (findSyntaxResources env True)) \<and>
     (\<forall>sm. fst (buildSyntaxMappingsFromUser env sm) =
        filter (\<lambda>e. snd e \<noteq> [])
          (map (\<lambda>(f, pats). (f, List.map_filter (re_compile env) pats)) sm)) \<and>
     (\<forall>st v user host i.
        mappings_value st = user @ host \<and> i < length user \<and>
        (\<exists>r \<in> set (snd (user ! i)). re_search env r (getPartialFirstLine st v)) \<and>
        (\<forall>j<i. \<forall>r \<in> set (snd (user ! j)). \<not> re_search env r (getPartialFirstLine st v)) \<longrightarrow>
        run env st v = v\<lparr>syntax_file := fst (user ! i)\<rparr>)"
proof (intro conjI allI impI)
  fix st :: "'r plugin_state"
  show "mappings_value (rebuildSyntaxMappings env st) =
        fst (buildSyntaxMappingsFromUser env (syntax_mapping (settings st))) @ syntaxMappingsSt st"
    by (simp add: mappings_value_def rebuild_fields)
next
  fix s and st :: "'r plugin_state"
  assume "plugin_loaded env s = Inr st"
  from plugin_loaded_table[OF this]
  show "mappings_value st =
          fst (buildSyntaxMappingsFromUser env (syntax_mapping s)) @ syntaxMappingsSt st"
    by (simp add: mappings_value_def)
next
  fix st :: "'r plugin_state"
  assume "reachable env st"
  from reachable_table[OF this]
  show host: "snd (buildSyntaxMappingsFromSt env) = Inr (syntaxMappingsSt st)" by blast
  then show "syntaxMappingsSt st = List.map_filter (resource_entry env) (findSyntaxResources env True)"
    using build_from_resources_Inr[of env "findSyntaxResources env True" "syntaxMappingsSt st"]
    by (simp add: buildSyntaxMappingsFromSt_def)
next
  fix sm
  show "fst (buildSyntaxMappingsFromUser env sm) =
        filter (\<lambda>e. snd e \<noteq> [])
          (map (\<lambda>(f, pats). (f, List.map_filter (re_compile env) pats)) sm)"
    by (rule buildSyntaxMappingsFromUser_fst)
next
  fix st :: "'r plugin_state" and v user host i
  assume a: "mappings_value st = user @ host \<and> i < length user \<and>
        (\<exists>r \<in> set (snd (user ! i)). re_search env r (getPartialFirstLine st v)) \<and>
        (\<forall>j<i. \<forall>r \<in> set (snd (user ! j)). \<not> re_search env r (getPartialFirstLine st v))"
  let ?line = "getPartialFirstLine st v"
  from a have i: "i < length (user @ host)" and at: "(user @ host) ! i = user ! i"
    by (simp_all add: nth_append)
  from a at have m: "\<exists>r \<in> set (snd ((user @ host) ! i)). re_search env r ?line" by simp
  have before: "\<forall>j<i. \<forall>r \<in> set (snd ((user @ host) ! j)). \<not> re_search env r ?line"
  proof (intro allI impI)
    fix j assume "j < i"
    with a have "(user @ host) ! j = user ! j" by (simp add: nth_append)
    with a \<open>j < i\<close> show "\<forall>r \<in> set (snd ((user @ host) ! j)). \<not> re_search env r ?line" by simp
  qed
  from scan_mappings_entry[OF i m before] a at
  show "run env st v = v\<lparr>syntax_file := fst (user ! i)\<rparr>"
    by (simp add: run_def)
qed

theorem value_user_then_host_witness:
  "mappings_value example_state =
     [(''Packages/Python/Python.sublime-syntax'', [''python'', ''#!py'']),
      (''Packages/ShellScript/Bash.sublime-syntax'', [''#!/bin/'']),
      (''Packages/Rails/Ruby on Rails.sublime-syntax'', [''ruby''])] @
     syntaxMappingsSt example_state \<and>
   run example_env example_state example_view =
     example_view\<lparr>syntax_file := ''Packages/Rails/Ruby on Rails.sublime-syntax''\<rparr>"
proof -
  let ?user = "fst (buildSyntaxMappingsFromUser example_env (syntax_mapping example_settings))"
  note facts = value_user_then_host[where env=example_env]
  from facts example_loaded
  have tab: "mappings_value example_state = ?user @ syntaxMappingsSt example_state"
    by blast
  have "2 < length ?user \<and>
        (\<exists>r \<in> set (snd (?user ! 2)). re_search example_env r (getPartialFirstLine example_state example_view)) \<and>
        (\<forall>j<2. \<forall>r \<in> set (snd (?user ! j)).
           \<not> re_search example_env r (getPartialFirstLine example_state example_view))"
    unfolding example_user_entries example_first_line
    by (simp add: All_less_Suc numeral_2_eq_2) code_simp
  with facts tab
  have "run example_env example_state example_view = example_view\<lparr>syntax_file := fst (?user ! 2)\<rparr>"
    by blast
  with tab show ?thesis unfolding example_user_entries by simp
qed

section \<open>Errors while the host-discovered entries are built\<close>

lemma build_from_resources_log:
  "\<forall>f \<in> set files. \<exists>v. findFirstLineMatch (yaml_load env) (load_resource env f) = Inr v \<Longrightarrow>
   fst (build_from_resources env files) = List.map_filter (resource_log env) files"
proof (induction files)
  case Nil
  then show ?case by simp
next
  case (Cons g files)
  from Cons.prems obtain v where v: "findFirstLineMatch (yaml_load env) (load_resource env g) = Inr v"
    by auto
  from Cons have IH: "fst (build_from_resources env files) = List.map_filter (resource_log env) files"
    by simp
  have g: "resource_log env g =
      (if v \<noteq> PNone \<and> compile_value env v = None
       then Some (LogError (''regex compilation failed in {0}: {1}'', [PStr g, v])) else None)"
    by (simp add: resource_log_def v)
  from IH show ?case
    by (cases "build_from_resources env files")
       (auto simp: v g split: option.splits sum.splits)
qed

lemma findFirstLineMatch_yaml_raises:
  assumes "strip s = CHR ''%'' # cs"
    and "find_str (before_contexts (strip s)) ''first_line_match'' \<noteq> - 1"
    and "yl (before_contexts (strip s)) = Inl e"
  shows "findFirstLineMatch yl s = Inl e"
  using assms by (simp add: findFirstLineMatch_def findFirstLineMatchYaml_cut)

lemma example_resources:
  "findSyntaxResources example_env True =
     [''Packages/Ruby/Ruby.sublime-syntax'', ''Packages/Lisp/Lisp.tmLanguage'',
      ''Packages/PHP/PHP.tmLanguage'']"
  by code_simp

lemma example_extractions:
  "findFirstLineMatch (yaml_load example_env)
     (load_resource example_env ''Packages/Ruby/Ruby.sublime-syntax'') = Inr (PStr ''ruby'')"
  "findFirstLineMatch (yaml_load example_env)
     (load_resource example_env ''Packages/Lisp/Lisp.tmLanguage'') = Inr (PStr ''(defun'')"
  "findFirstLineMatch (yaml_load example_env)
     (load_resource example_env ''Packages/PHP/PHP.tmLanguage'') = Inr (PStr ''php'')"
  by code_simp+

lemma broken_resources:
  "findSyntaxResources broken_env True =
     [''Packages/Broken/Broken.sublime-syntax'', ''Packages/Ruby/Ruby.sublime-syntax'',
      ''Packages/PHP/PHP.tmLanguage'']"
  by code_simp

lemma broken_extraction:
  "findFirstLineMatch (yaml_load broken_env)
     (load_resource broken_env ''Packages/Broken/Broken.sublime-syntax'') = Inl YAMLError"
  by code_simp

text \<open>
  Claim C5, as stated, fails: the claim is that a resource whose YAML does not parse is
  caught by the table builder, logged and skipped, the build completing with the other
  resources. In the installation with the broken package, the loader raises on the first
  resource; the build ends with that exception, logs nothing and returns no list, the two
  other resources are never processed, and \<^verbatim>\<open>plugin_loaded\<close> ends with the exception too.
\<close>

theorem parse_error_aborts_build_counterexample:
  "yaml_load broken_env
     (before_contexts (strip (load_resource broken_env ''Packages/Broken/Broken.sublime-syntax''))) =
     Inl YAMLError \<and>
   findSyntaxResources broken_env True =
     [''Packages/Broken/Broken.sublime-syntax'', ''Packages/Ruby/Ruby.sublime-syntax'',
      ''Packages/PHP/PHP.tmLanguage''] \<and>
   buildSyntaxMappingsFromSt broken_env = ([], Inl YAMLError) \<and>
   plugin_loaded broken_env example_settings = Inl (YAMLError, initial_state example_settings)"
  by code_simp

text \<open>
  Claim C5, amended. When the extractor returns for every discovered resource, the build
  completes: it returns, in discovery order, one entry for each resource whose pattern
  compiles, and it has logged, in the same order, one error (with the resource and the
  pattern) for each resource whose pattern does not compile; such a resource is skipped,
  and it alone. What the extractor raises is not caught: when it raises for a resource,
  the build ends with an exception and returns no list. A YAML loader error is such a
  case: for content that starts with \<^verbatim>\<open>%\<close> once stripped and contains \<^verbatim>\<open>first_line_match\<close>
  before the marker, the extractor raises what the loader raises.
\<close>

theorem build_catches_compile_errors_only:
  fixes env :: "'r env"
  defines "files \<equiv> findSyntaxResources env True"
  shows
    "((\<forall>f \<in> set files. \<exists>v. findFirstLineMatch (yaml_load env) (load_resource env f) = Inr v) \<longrightarrow>
        buildSyntaxMappingsFromSt env =
          (List.map_filter (resource_log env) files,
           Inr (List.map_filter (resource_entry env) files))) \<and>
     (\<forall>f e. f \<in> set files \<and>
          findFirstLineMatch (yaml_load env) (load_resource env f) = Inl e \<longrightarrow>
          (\<exists>e'. snd (buildSyntaxMappingsFromSt env) = Inl e')) \<and>
     (\<forall>s cs e. strip s = CHR ''%'' # cs \<and>
          find_str (before_contexts (strip s)) ''first_line_match'' \<noteq> - 1 \<and>
          yaml_load env (before_contexts (strip s)) = Inl e \<longrightarrow>
          findFirstLineMatch (yaml_load env) s = Inl e)"
proof (intro conjI allI impI)
  assume all: "\<forall>f \<in> set files. \<exists>v. findFirstLineMatch (yaml_load env) (load_resource env f) = Inr v"
  from build_from_resources_log[OF all] build_from_resources_returns[OF all]
  show "buildSyntaxMappingsFromSt env =
          (List.map_filter (resource_log env) files,
           Inr (List.map_filter (resource_entry env) files))"
    unfolding buildSyntaxMappingsFromSt_def files_def by (simp add: prod_eq_iff)
next
  fix f e
  assume "f \<in> set files \<and> findFirstLineMatch (yaml_load env) (load_resource env f) = Inl e"
  then show "\<exists>e'. snd (buildSyntaxMappingsFromSt env) = Inl e'"
    unfolding buildSyntaxMappingsFromSt_def files_def
    using build_from_resources_raises by blast
next
  fix s cs e
  assume "strip s = CHR ''%'' # cs \<and>
          find_str (before_contexts (strip s)) ''first_line_match'' \<noteq> - 1 \<and>
          yaml_load env (before_contexts (strip s)) = Inl e"
  then show "findFirstLineMatch (yaml_load env) s = Inl e"
    using findFirstLineMatch_yaml_raises by blast
qed

theorem build_catches_compile_errors_only_witness:
  "buildSyntaxMappingsFromSt example_env =
     ([LogError (''regex compilation failed in {0}: {1}'',
                 [PStr ''Packages/Lisp/Lisp.tmLanguage'', PStr ''(defun''])],
      Inr [(''Packages/Ruby/Ruby.sublime-syntax'', [''ruby'']),
           (''Packages/PHP/PHP.tmLanguage'', [''php''])]) \<and>
   (\<exists>e'. snd (buildSyntaxMappingsFromSt broken_env) = Inl e') \<and>
   findFirstLineMatch (yaml_load broken_env) broken_syntax = Inl YAMLError"
proof -
  have all: "\<forall>f \<in> set (findSyntaxResources example_env True).
      \<exists>v. findFirstLineMatch (yaml_load example_env) (load_resource example_env f) = Inr v"
    unfolding example_resources using example_extractions by simp
  have logs: "List.map_filter (resource_log example_env) (findSyntaxResources example_env True) =
      [LogError (''regex compilation failed in {0}: {1}'',
                 [PStr ''Packages/Lisp/Lisp.tmLanguage'', PStr ''(defun''])]"
    by code_simp
  have entries: "List.map_filter (resource_entry example_env) (findSyntaxResources example_env True) =
      [(''Packages/Ruby/Ruby.sublime-syntax'', [''ruby'']),
       (''Packages/PHP/PHP.tmLanguage'', [''php''])]"
    by code_simp
  from build_catches_compile_errors_only[where env=example_env] all
  have "buildSyntaxMappingsFromSt example_env =
          (List.map_filter (resource_log example_env) (findSyntaxResources example_env True),
           Inr (List.map_filter (resource_entry example_env) (findSyntaxResources example_env True)))"
    by blast
  moreover have "''Packages/Broken/Broken.sublime-syntax'' \<in> set (findSyntaxResources broken_env True)"
    unfolding broken_resources by simp
  with build_catches_compile_errors_only[where env=broken_env] broken_extraction
  have "\<exists>e'. snd (buildSyntaxMappingsFromSt broken_env) = Inl e'"
    by blast
  moreover have "strip broken_syntax =
        CHR ''%'' # ''YAML 1.2\<newline>---\<newline>first_line_match: [\<newline>contexts:'' \<and>
      find_str (before_contexts (strip broken_syntax)) ''first_line_match'' \<noteq> - 1 \<and>
      yaml_load broken_env (before_contexts (strip broken_syntax)) = Inl YAMLError"
    by code_simp
  with build_catches_compile_errors_only[where env=broken_env]
  have "findFirstLineMatch (yaml_load broken_env) broken_syntax = Inl YAMLError"
    by blast
  ultimately show ?thesis unfolding logs entries by simp
qed

end
